theory Spec2Isabelle
  imports Complex_Main "HOL-Library.Word"
begin

section \<open>Data model of Watchdog.Cpp\<close>

text \<open>
  The enum of line 17. The enumerators keep their order and names.
\<close>

datatype NodeStatus = NO_STATUS | POSITIVE_STATUS | NEGATIVE_STATUS

text \<open>
  The program computes with C++ \<open>double\<close>. The fields \<open>m_reputation\<close>, \<open>m_threshold\<close>,
  \<open>m_gamma\<close>, \<open>m_dropProbability\<close> and \<open>convergenceTime\<close> only ever hold finite values
  (literals, sums of at most ten steps of 1.0, simulated times in seconds, the arguments
  of Setup), and every operation performed on them is exact in binary64 at those
  magnitudes, so they are modelled by the real number each double denotes.
  The one place where a non-finite double arises is the quotient of the packet counters
  in \<open>MonitorNode\<close> (line 171); for \<open>m_packetLossRate\<close> the IEEE 754 special values
  are therefore part of the model.
\<close>

datatype double = Finite real | PosInf | NegInf | NaN

text \<open>
  \<open>(double)a / b\<close> for two \<open>uint32_t\<close> values: both convert exactly, IEEE division of
  0 by 0 is NaN, of a positive number by 0 is +infinity; nothing traps. A finite
  quotient is given by its exact value: the rounding of the last bit is left out.
\<close>

definition u32_div :: "32 word \<Rightarrow> 32 word \<Rightarrow> double" where
  "u32_div a b =
     (if b = 0 then (if a = 0 then NaN else PosInf)
      else Finite (real (unat a) / real (unat b)))"

text \<open>\<open>1.0 - x\<close> on doubles.\<close>

fun one_minus :: "double \<Rightarrow> double" where
  "one_minus (Finite q) = Finite (1 - q)"
| "one_minus PosInf = NegInf"
| "one_minus NegInf = PosInf"
| "one_minus NaN = NaN"

text \<open>
  Undefined behaviour of the C++ is a value of the model: dereferencing the null
  \<open>m_node\<close> (an instance on which Setup was never called), and indexing
  \<open>nodesStatus\<close> past its size.
\<close>

datatype fault = NullPointer | OutOfBounds

text \<open>
  What \<open>NS_LOG_UNCOND\<close> prints, one constructor per message of the source, carrying
  the values the message interpolates.
\<close>

datatype log_msg =
    Log_Starting_Greyhole nat
  | Log_Stopping_Greyhole nat
  | Log_Packet_Dropped nat
  | Log_Starting_Watchdog nat
  | Log_Stopping_Watchdog nat
  | Log_Max_Or_Converged nat
  | Log_Packet_Loss_Rate nat double
  | Log_Monitoring nat
  | Log_Positive_Event nat real
  | Log_Negative_Event nat real
  | Log_No_Information nat
  | Log_State nat NodeStatus
  | Log_All_Converged real

text \<open>
  \<open>(double)rand() / (RAND_MAX)\<close> (lines 88 and 179). \<open>rand()\<close> returns an integer
  between 0 and \<open>RAND_MAX\<close>, both included; \<open>RAND_MAX\<close> is the C library's macro and
  is a parameter here. The value returned by the call to \<open>rand()\<close> is an input of the
  handler that makes the call. The quotient is taken exact. The double the program
  computes is the nearest one, and for \<open>RAND_MAX\<close> below \<open>2^31\<close> it compares with
  0, with 1 and with the literals 0.33 and 0.66 as the exact quotient does: a quotient
  \<open>k / RAND_MAX\<close> other than 33/100 is further from 33/100 than the rounding can
  move it, and likewise for 66/100.
\<close>

definition randomValue :: "nat \<Rightarrow> nat \<Rightarrow> real" where
  "randomValue RAND_MAX r = real r / real RAND_MAX"

section \<open>GreyholeNode\<close>

text \<open>
  The fields of class GreyholeNode (lines 38 to 40). Both classes name a field
  \<open>m_node\<close> and the greyhole's carries the prefix \<open>gh_\<close>, as does its socket.
  \<open>gh_m_socket\<close> records whether \<open>m_socket\<close> is non-null; \<open>gh_m_node\<close> is the id
  of the node pointed to, \<open>None\<close> for the null pointer.
\<close>

record GreyholeNode =
  gh_m_socket :: bool
  gh_m_node :: "nat option"
  m_dropProbability :: real

definition GreyholeNode_ctor :: GreyholeNode where
  "GreyholeNode_ctor = \<lparr>gh_m_socket = False, gh_m_node = None, m_dropProbability = 1 / 2\<rparr>"

definition GreyholeNode_Setup :: "nat \<Rightarrow> real \<Rightarrow> GreyholeNode \<Rightarrow> GreyholeNode" where
  "GreyholeNode_Setup node dropProbability g =
     g\<lparr>gh_m_node := Some node, m_dropProbability := dropProbability\<rparr>"

definition GreyholeNode_StartApplication ::
  "GreyholeNode \<Rightarrow> fault + (GreyholeNode \<times> log_msg list)" where
  "GreyholeNode_StartApplication g =
     (case gh_m_node g of
        None \<Rightarrow> Inl NullPointer
      | Some n \<Rightarrow>
          Inr (if \<not> gh_m_socket g then g\<lparr>gh_m_socket := True\<rparr> else g,
               [Log_Starting_Greyhole n]))"

definition GreyholeNode_StopApplication ::
  "GreyholeNode \<Rightarrow> fault + (GreyholeNode \<times> log_msg list)" where
  "GreyholeNode_StopApplication g =
     (case gh_m_node g of
        None \<Rightarrow> Inl NullPointer
      | Some n \<Rightarrow>
          Inr (if gh_m_socket g then g\<lparr>gh_m_socket := False\<rparr> else g,
               [Log_Stopping_Greyhole n]))"

text \<open>
  \<open>ReceivePacket\<close> (lines 82 to 98). The argument \<open>packet\<close> is what \<open>socket->Recv()\<close>
  returned (\<open>None\<close> for a null packet), \<open>r\<close> what \<open>rand()\<close> returns when it is
  called. The result lists the packets handed to \<open>socket->Send\<close> and the messages
  logged; no field changes.
\<close>

definition GreyholeNode_ReceivePacket ::
  "nat \<Rightarrow> nat \<Rightarrow> 'p option \<Rightarrow> GreyholeNode \<Rightarrow> fault + ('p list \<times> log_msg list)" where
  "GreyholeNode_ReceivePacket RAND_MAX r packet g =
     (case packet of
        None \<Rightarrow> Inr ([], [])
      | Some p \<Rightarrow>
          if randomValue RAND_MAX r > m_dropProbability g then Inr ([p], [])
          else (case gh_m_node g of
                  None \<Rightarrow> Inl NullPointer
                | Some n \<Rightarrow> Inr ([], [Log_Packet_Dropped n])))"

section \<open>WatchdogNode and the globals\<close>

text \<open>
  The fields of class WatchdogNode (lines 114 to 125). \<open>m_node\<close> is the id of the node
  pointed to (\<open>None\<close> for null), \<open>m_event\<close> the uid of the event the \<open>EventId\<close> refers to
  (\<open>None\<close> for a default-constructed one), the \<open>uint32_t\<close> counters are 32-bit words.
\<close>

record WatchdogNode =
  m_node :: "nat option"
  m_neighborStatus :: "(nat \<times> NodeStatus) list"
  m_gamma :: real
  m_reputation :: real
  m_threshold :: real
  m_event :: "nat option"
  m_monitorCount :: "32 word"
  m_receivedPackets :: "32 word"
  m_sentPackets :: "32 word"
  m_packetLossRate :: double

definition m_maxMonitorCount :: "32 word" where
  "m_maxMonitorCount = 10"

text \<open>
  The state all watchdogs share: the three globals of lines 128 to 130, the simulator's
  event list (uid, time in seconds and receiver of every pending event; the receiver
  is the index of the watchdog whose \<open>MonitorNode\<close> the event calls), the uid the
  simulator gives the next event, and the log written so far.
\<close>

record Env =
  allNodesConverged :: bool
  nodesStatus :: "bool list"
  convergenceTime :: real
  sim_uid :: nat
  sim_events :: "(nat \<times> real \<times> nat) list"
  log_out :: "log_msg list"

definition Env_init :: Env where
  "Env_init = \<lparr>allNodesConverged = False, nodesStatus = [], convergenceTime = 0,
               sim_uid = 0, sim_events = [], log_out = []\<rparr>"

definition NS_LOG_UNCOND :: "log_msg \<Rightarrow> Env \<Rightarrow> Env" where
  "NS_LOG_UNCOND m e = e\<lparr>log_out := log_out e @ [m]\<rparr>"

text \<open>
  \<open>Simulator::Schedule(delay, &WatchdogNode::MonitorNode, this)\<close> at time \<open>now\<close>: a
  fresh uid, the event appended to the pending ones. \<open>Simulator::Cancel\<close> removes the
  event from the pending ones; cancelling an event that is not pending changes nothing.
\<close>

definition Simulator_Schedule :: "real \<Rightarrow> nat \<Rightarrow> Env \<Rightarrow> nat \<times> Env" where
  "Simulator_Schedule t this e =
     (sim_uid e,
      e\<lparr>sim_uid := Suc (sim_uid e), sim_events := sim_events e @ [(sim_uid e, t, this)]\<rparr>)"

definition Simulator_Cancel :: "nat option \<Rightarrow> Env \<Rightarrow> Env" where
  "Simulator_Cancel ev e =
     (case ev of
        None \<Rightarrow> e
      | Some u \<Rightarrow> e\<lparr>sim_events := filter (\<lambda>x. fst x \<noteq> u) (sim_events e)\<rparr>)"

definition WatchdogNode_ctor :: WatchdogNode where
  "WatchdogNode_ctor =
     \<lparr>m_node = None, m_neighborStatus = [], m_gamma = 1 / 2, m_reputation = 0,
      m_threshold = 1, m_event = None, m_monitorCount = 0, m_receivedPackets = 0,
      m_sentPackets = 0, m_packetLossRate = Finite 0\<rparr>"

definition WatchdogNode_Setup :: "nat \<Rightarrow> real \<Rightarrow> WatchdogNode \<Rightarrow> WatchdogNode" where
  "WatchdogNode_Setup node gamma w = w\<lparr>m_node := Some node, m_gamma := gamma\<rparr>"

definition WatchdogNode_StartApplication ::
  "nat \<Rightarrow> real \<Rightarrow> WatchdogNode \<times> Env \<Rightarrow> fault + (WatchdogNode \<times> Env)" where
  "WatchdogNode_StartApplication this now = (\<lambda>(w, e).
     case m_node w of
       None \<Rightarrow> Inl NullPointer
     | Some n \<Rightarrow>
         (let (ev, e') = Simulator_Schedule (now + 1) this (NS_LOG_UNCOND (Log_Starting_Watchdog n) e)
          in Inr (w\<lparr>m_event := Some ev\<rparr>, e')))"

definition WatchdogNode_StopApplication ::
  "WatchdogNode \<times> Env \<Rightarrow> fault + (WatchdogNode \<times> Env)" where
  "WatchdogNode_StopApplication = (\<lambda>(w, e).
     case m_node w of
       None \<Rightarrow> Inl NullPointer
     | Some n \<Rightarrow> Inr (w, Simulator_Cancel (m_event w) (NS_LOG_UNCOND (Log_Stopping_Watchdog n) e)))"

subsection \<open>ProcessEvent\<close>

text \<open>
  The switch of lines 198 to 214, for a watchdog on node \<open>n\<close>. Writing
  \<open>nodesStatus[n]\<close> with \<open>n\<close> not below the vector's size is undefined behaviour.
\<close>

definition apply_event ::
  "NodeStatus \<Rightarrow> nat \<Rightarrow> WatchdogNode \<times> Env \<Rightarrow> fault + (WatchdogNode \<times> Env)" where
  "apply_event event n = (\<lambda>(w, e).
     case event of
       POSITIVE_STATUS \<Rightarrow>
         (let w' = w\<lparr>m_reputation := m_reputation w + 1\<rparr>;
              e' = NS_LOG_UNCOND (Log_Positive_Event n (m_reputation w')) e
          in if n < length (nodesStatus e')
             then Inr (w', e'\<lparr>nodesStatus := (nodesStatus e')[n := True]\<rparr>)
             else Inl OutOfBounds)
     | NEGATIVE_STATUS \<Rightarrow>
         (let w' = w\<lparr>m_reputation := m_reputation w - 1\<rparr>;
              e' = NS_LOG_UNCOND (Log_Negative_Event n (m_reputation w')) e
          in if n < length (nodesStatus e')
             then Inr (w', e'\<lparr>nodesStatus := (nodesStatus e')[n := True]\<rparr>)
             else Inl OutOfBounds)
     | NO_STATUS \<Rightarrow> Inr (w, NS_LOG_UNCOND (Log_No_Information n) e))"

text \<open>
  The chain of comparisons of lines 216 to 227: the status whose name is logged.
\<close>

definition classify :: "real \<Rightarrow> real \<Rightarrow> NodeStatus" where
  "classify reputation threshold =
     (if reputation \<ge> threshold then POSITIVE_STATUS
      else if reputation < - threshold then NEGATIVE_STATUS
      else NO_STATUS)"

text \<open>The loop of lines 229 to 237, leaving at the first entry that is false.\<close>

fun allNodesHaveInfo :: "bool list \<Rightarrow> bool" where
  "allNodesHaveInfo [] = True"
| "allNodesHaveInfo (b # bs) = (if \<not> b then False else allNodesHaveInfo bs)"

text \<open>Lines 239 to 244.\<close>

definition check_convergence :: "real \<Rightarrow> Env \<Rightarrow> Env" where
  "check_convergence now e =
     (if allNodesHaveInfo (nodesStatus e) \<and> \<not> allNodesConverged e
      then NS_LOG_UNCOND (Log_All_Converged now) (e\<lparr>allNodesConverged := True, convergenceTime := now\<rparr>)
      else e)"

definition WatchdogNode_ProcessEvent ::
  "real \<Rightarrow> NodeStatus \<Rightarrow> WatchdogNode \<times> Env \<Rightarrow> fault + (WatchdogNode \<times> Env)" where
  "WatchdogNode_ProcessEvent now event = (\<lambda>(w, e).
     case m_node w of
       None \<Rightarrow> Inl NullPointer
     | Some n \<Rightarrow>
         (case apply_event event n (w, e) of
            Inl f \<Rightarrow> Inl f
          | Inr (w', e') \<Rightarrow>
              Inr (w', check_convergence now
                         (NS_LOG_UNCOND (Log_State n (classify (m_reputation w') (m_threshold w'))) e'))))"

subsection \<open>MonitorNode\<close>

text \<open>Lines 178 to 188: the event drawn from the random value.\<close>

definition MonitorNode_event :: "real \<Rightarrow> NodeStatus" where
  "MonitorNode_event rv =
     (if rv < 33 / 100 then POSITIVE_STATUS
      else if rv < 66 / 100 then NEGATIVE_STATUS
      else NO_STATUS)"

text \<open>The condition of line 168.\<close>

definition terminal :: "WatchdogNode \<Rightarrow> Env \<Rightarrow> bool" where
  "terminal w e = (m_monitorCount w \<ge> m_maxMonitorCount \<or> allNodesConverged e)"

text \<open>
  \<open>MonitorNode\<close> (lines 166 to 194), run at time \<open>now\<close> by the watchdog of index
  \<open>this\<close>; \<open>r\<close> is what \<open>rand()\<close> returns if the handler calls it.
\<close>

definition WatchdogNode_MonitorNode ::
  "nat \<Rightarrow> nat \<Rightarrow> nat \<Rightarrow> real \<Rightarrow> WatchdogNode \<times> Env \<Rightarrow> fault + (WatchdogNode \<times> Env)" where
  "WatchdogNode_MonitorNode RAND_MAX this r now = (\<lambda>(w, e).
     case m_node w of
       None \<Rightarrow> Inl NullPointer
     | Some n \<Rightarrow>
         if terminal w e then
           (let w' = w\<lparr>m_packetLossRate := one_minus (u32_div (m_receivedPackets w) (m_sentPackets w))\<rparr>
            in Inr (w', NS_LOG_UNCOND (Log_Packet_Loss_Rate n (m_packetLossRate w'))
                          (NS_LOG_UNCOND (Log_Max_Or_Converged n) e)))
         else
           (case WatchdogNode_ProcessEvent now (MonitorNode_event (randomValue RAND_MAX r))
                   (w, NS_LOG_UNCOND (Log_Monitoring n) e) of
              Inl f \<Rightarrow> Inl f
            | Inr (w', e') \<Rightarrow>
                (let (ev, e'') = Simulator_Schedule (now + 1) this e'
                 in Inr (w'\<lparr>m_monitorCount := m_monitorCount w' + 1, m_event := Some ev\<rparr>, e''))))"

section \<open>Sequences of operations\<close>

text \<open>
  The operations of one WatchdogNode instance, with their arguments: the public Setup,
  the two hooks the application framework calls, the timer's handler with the value
  \<open>rand()\<close> returns and the time, and \<open>ProcessEvent\<close> with its event and the
  time.
\<close>

datatype call =
    Call_Setup nat real
  | Call_StartApplication real
  | Call_StopApplication
  | Call_MonitorNode nat real
  | Call_ProcessEvent NodeStatus real

definition do_call ::
  "nat \<Rightarrow> nat \<Rightarrow> call \<Rightarrow> WatchdogNode \<times> Env \<Rightarrow> fault + (WatchdogNode \<times> Env)" where
  "do_call RAND_MAX this c = (\<lambda>(w, e).
     case c of
       Call_Setup node gamma \<Rightarrow> Inr (WatchdogNode_Setup node gamma w, e)
     | Call_StartApplication now \<Rightarrow> WatchdogNode_StartApplication this now (w, e)
     | Call_StopApplication \<Rightarrow> WatchdogNode_StopApplication (w, e)
     | Call_MonitorNode r now \<Rightarrow> WatchdogNode_MonitorNode RAND_MAX this r now (w, e)
     | Call_ProcessEvent event now \<Rightarrow> WatchdogNode_ProcessEvent now event (w, e))"

text \<open>
  The lifetime of one instance: any operations in any order. Between two of them the
  rest of the program may have changed the shared state in any way, so every call comes
  with the shared state it finds; the private fields are carried from call to call.
\<close>

fun lifetime :: "nat \<Rightarrow> nat \<Rightarrow> (call \<times> Env) list \<Rightarrow> WatchdogNode \<Rightarrow> fault + WatchdogNode" where
  "lifetime RAND_MAX this [] w = Inr w"
| "lifetime RAND_MAX this ((c, e) # cs) w =
     (case do_call RAND_MAX this c (w, e) of
        Inl f \<Rightarrow> Inl f
      | Inr (w', e') \<Rightarrow> lifetime RAND_MAX this cs w')"

text \<open>
  \<open>ProcessEvent\<close> called with a sequence of events, one round after the other; the
  rounds are one second apart (line 193).
\<close>

fun apply_evidence ::
  "real \<Rightarrow> NodeStatus list \<Rightarrow> WatchdogNode \<times> Env \<Rightarrow> fault + (WatchdogNode \<times> Env)" where
  "apply_evidence now [] s = Inr s"
| "apply_evidence now (ev # evs) s =
     (case WatchdogNode_ProcessEvent now ev s of
        Inl f \<Rightarrow> Inl f
      | Inr s' \<Rightarrow> apply_evidence (now + 1) evs s')"

subsection \<open>The simulation\<close>

text \<open>
  The watchdog applications and the shared state. What happens during
  \<open>Simulator::Run\<close>: a pending event fires, calling \<open>MonitorNode\<close> of its receiver at
  the event's time (\<open>Fire\<close>, with the event's uid and what \<open>rand()\<close> returns during
  the call), or the framework stops an application (\<open>Stop\<close>, with the application's
  index). The order in which pending events fire is left open, so the runs of the
  model include those of the simulator, which fires them by time.
\<close>

type_synonym World = "WatchdogNode list \<times> Env"

datatype action = Fire nat nat | Stop nat

definition world_step :: "nat \<Rightarrow> action \<Rightarrow> World \<Rightarrow> fault + World" where
  "world_step RAND_MAX a = (\<lambda>(ws, e).
     case a of
       Fire u r \<Rightarrow>
         (case map_of (sim_events e) u of
            None \<Rightarrow> Inr (ws, e)
          | Some (t, this) \<Rightarrow>
              if this < length ws then
                (case WatchdogNode_MonitorNode RAND_MAX this r t
                        (ws ! this, e\<lparr>sim_events := filter (\<lambda>x. fst x \<noteq> u) (sim_events e)\<rparr>) of
                   Inl f \<Rightarrow> Inl f
                 | Inr (w', e') \<Rightarrow> Inr (ws[this := w'], e'))
              else Inl NullPointer)
     | Stop i \<Rightarrow>
         if i < length ws then
           (case WatchdogNode_StopApplication (ws ! i, e) of
              Inl f \<Rightarrow> Inl f
            | Inr (w', e') \<Rightarrow> Inr (ws[i := w'], e'))
         else Inr (ws, e))"

fun world_run :: "nat \<Rightarrow> action list \<Rightarrow> World \<Rightarrow> fault + World" where
  "world_run RAND_MAX [] W = Inr W"
| "world_run RAND_MAX (a # as) W =
     (case world_step RAND_MAX a W of
        Inl f \<Rightarrow> Inl f
      | Inr W' \<Rightarrow> world_run RAND_MAX as W')"

text \<open>
  What \<open>main\<close> sets up (lines 310 to 320) for \<open>n\<close> nodes of which the first \<open>k\<close>
  carry a watchdog (\<open>main\<close> itself has \<open>n = 27\<close> and \<open>k = 24\<close>):
  \<open>nodesStatus.resize(n, false)\<close>, watchdog \<open>i\<close> constructed and set up on node
  \<open>i\<close> with gamma 0.5, and every application started at time 1.0.
\<close>

fun start_apps :: "real \<Rightarrow> nat list \<Rightarrow> World \<Rightarrow> fault + World" where
  "start_apps now [] W = Inr W"
| "start_apps now (i # is) (ws, e) =
     (case WatchdogNode_StartApplication i now (ws ! i, e) of
        Inl f \<Rightarrow> Inl f
      | Inr (w', e') \<Rightarrow> start_apps now is (ws[i := w'], e'))"

definition main_world :: "nat \<Rightarrow> nat \<Rightarrow> fault + World" where
  "main_world n k =
     start_apps 1 [0..<k]
       (map (\<lambda>i. WatchdogNode_Setup i (1 / 2) WatchdogNode_ctor) [0..<k],
        Env_init\<lparr>nodesStatus := replicate n False\<rparr>)"

definition run_main :: "nat \<Rightarrow> nat \<Rightarrow> nat \<Rightarrow> action list \<Rightarrow> fault + World" where
  "run_main RAND_MAX n k acts =
     (case main_world n k of
        Inl f \<Rightarrow> Inl f
      | Inr W \<Rightarrow> world_run RAND_MAX acts W)"

section \<open>What the specification words say, for comparison\<close>

text \<open>The specification's evidence bands: thirds of the unit interval.\<close>

definition spec_evidence :: "real \<Rightarrow> NodeStatus" where
  "spec_evidence rv =
     (if rv < 1 / 3 then POSITIVE_STATUS
      else if rv < 2 / 3 then NEGATIVE_STATUS
      else NO_STATUS)"

text \<open>The specification's signed contribution of one piece of evidence.\<close>

fun signed_contribution :: "NodeStatus \<Rightarrow> real" where
  "signed_contribution POSITIVE_STATUS = 1"
| "signed_contribution NEGATIVE_STATUS = - 1"
| "signed_contribution NO_STATUS = 0"

text \<open>
  The specification's guarded loss rate: undefined (\<open>None\<close>) when nothing was sent.
\<close>

definition spec_lossRate :: "32 word \<Rightarrow> 32 word \<Rightarrow> real option" where
  "spec_lossRate received sent =
     (if sent = 0 then None else Some (1 - real (unat received) / real (unat sent)))"

text \<open>
  The specification's setup calls, which reject a configuration error.
\<close>

datatype config_error = AlreadyAttached | BadDropProbability

definition spec_GreyholeNode_Setup ::
  "nat \<Rightarrow> real \<Rightarrow> GreyholeNode \<Rightarrow> config_error + GreyholeNode" where
  "spec_GreyholeNode_Setup node dropProbability g =
     (if dropProbability < 0 \<or> 1 < dropProbability then Inl BadDropProbability
      else Inr (g\<lparr>gh_m_node := Some node, m_dropProbability := dropProbability\<rparr>))"

definition spec_WatchdogNode_Setup ::
  "nat \<Rightarrow> real \<Rightarrow> WatchdogNode \<Rightarrow> config_error + WatchdogNode" where
  "spec_WatchdogNode_Setup node gamma w =
     (if m_node w \<noteq> None then Inl AlreadyAttached
      else Inr (w\<lparr>m_node := Some node, m_gamma := gamma\<rparr>))"

section \<open>Reading the log\<close>

text \<open>
  The states announced by the messages of lines 218, 222 and 226, with the node each
  is about, in the order they were logged.
\<close>

fun logged_states :: "log_msg list \<Rightarrow> (nat \<times> NodeStatus) list" where
  "logged_states [] = []"
| "logged_states (Log_State i s # ms) = (i, s) # logged_states ms"
| "logged_states (m # ms) = logged_states ms"

text \<open>
  The events reported by the messages of lines 202, 207 and 212, with the node of the
  watchdog that processed each.
\<close>

fun logged_evidence :: "log_msg list \<Rightarrow> (nat \<times> NodeStatus) list" where
  "logged_evidence [] = []"
| "logged_evidence (Log_Positive_Event i x # ms) = (i, POSITIVE_STATUS) # logged_evidence ms"
| "logged_evidence (Log_Negative_Event i x # ms) = (i, NEGATIVE_STATUS) # logged_evidence ms"
| "logged_evidence (Log_No_Information i # ms) = (i, NO_STATUS) # logged_evidence ms"
| "logged_evidence (m # ms) = logged_evidence ms"

text \<open>
  The nodes of the watchdogs that announced a monitoring round (line 176), one entry
  per round, and the times announced by the convergence message (line 243).
\<close>

fun logged_rounds :: "log_msg list \<Rightarrow> nat list" where
  "logged_rounds [] = []"
| "logged_rounds (Log_Monitoring i # ms) = i # logged_rounds ms"
| "logged_rounds (m # ms) = logged_rounds ms"

fun logged_convergence :: "log_msg list \<Rightarrow> real list" where
  "logged_convergence [] = []"
| "logged_convergence (Log_All_Converged t # ms) = t # logged_convergence ms"
| "logged_convergence (m # ms) = logged_convergence ms"

section \<open>Invariants of the simulation\<close>

text \<open>
  What \<open>main\<close> establishes and every step keeps: watchdog \<open>i\<close> sits on node \<open>i\<close>,
  every watchdog's node has an entry in \<open>nodesStatus\<close>, and every pending event calls
  an existing watchdog.
\<close>

definition world_ok :: "World \<Rightarrow> bool" where
  "world_ok = (\<lambda>(ws, e).
     length ws \<le> length (nodesStatus e) \<and>
     (\<forall>i < length ws. m_node (ws ! i) = Some i) \<and>
     (\<forall>x \<in> set (sim_events e). snd (snd x) < length ws))"

text \<open>
  The rounds logged for node \<open>i\<close> are those counted by \<open>m_monitorCount\<close> of watchdog
  \<open>i\<close>, which never exceeds \<open>m_maxMonitorCount\<close>.
\<close>

definition rounds_inv :: "World \<Rightarrow> bool" where
  "rounds_inv = (\<lambda>(ws, e). \<forall>i < length ws.
      count_list (logged_rounds (log_out e)) i = unat (m_monitorCount (ws ! i)) \<and>
      m_monitorCount (ws ! i) \<le> m_maxMonitorCount)"

text \<open>
  Some node without a watchdog has its entry of \<open>nodesStatus\<close> still false, and
  nothing has converged.
\<close>

definition unconverged_inv :: "World \<Rightarrow> bool" where
  "unconverged_inv = (\<lambda>(ws, e).
      (\<exists>j. length ws \<le> j \<and> j < length (nodesStatus e) \<and> \<not> nodesStatus e ! j) \<and>
      \<not> allNodesConverged e \<and> convergenceTime e = 0 \<and> logged_convergence (log_out e) = [])"

text \<open>
  The convergence message was logged once, with the time held by \<open>convergenceTime\<close>,
  if the flag is set, and never if it is not.
\<close>

definition convergence_inv :: "World \<Rightarrow> bool" where
  "convergence_inv = (\<lambda>(ws, e).
      logged_convergence (log_out e) = (if allNodesConverged e then [convergenceTime e] else []))"

section \<open>Properties of ProcessEvent\<close>

lemma logged_states_append: "logged_states (xs @ ys) = logged_states xs @ logged_states ys"
  by (induction xs rule: logged_states.induct) simp_all

lemma logged_evidence_append: "logged_evidence (xs @ ys) = logged_evidence xs @ logged_evidence ys"
  by (induction xs rule: logged_evidence.induct) simp_all

lemma classify_bands:
  "0 < t \<Longrightarrow>
     (classify r t = POSITIVE_STATUS \<longleftrightarrow> t \<le> r) \<and>
     (classify r t = NEGATIVE_STATUS \<longleftrightarrow> r < - t) \<and>
     (classify r t = NO_STATUS \<longleftrightarrow> - t \<le> r \<and> r < t)"
  by (auto simp: classify_def)

lemma check_convergence_log:
  "\<exists>tl. log_out (check_convergence now e) = log_out e @ tl \<and>
        logged_states tl = [] \<and> logged_evidence tl = []"
  by (simp add: check_convergence_def NS_LOG_UNCOND_def)

lemma apply_event_Inr:
  assumes "apply_event ev n (w, e) = Inr (w', e')"
  shows "w' = w\<lparr>m_reputation := m_reputation w + signed_contribution ev\<rparr>"
    and "\<exists>m. log_out e' = log_out e @ [m] \<and> logged_states [m] = [] \<and>
              logged_evidence [m] = [(n, ev)]"
    and "nodesStatus e' = (if ev = NO_STATUS then nodesStatus e else (nodesStatus e)[n := True])"
    and "allNodesConverged e' = allNodesConverged e"
    and "convergenceTime e' = convergenceTime e"
    and "sim_events e' = sim_events e"
    and "sim_uid e' = sim_uid e"
  using assms
  by (auto simp: apply_event_def NS_LOG_UNCOND_def Let_def split: NodeStatus.splits if_splits)

lemma apply_event_ok:
  "ev = NO_STATUS \<or> n < length (nodesStatus e) \<Longrightarrow>
     \<exists>w' e'. apply_event ev n (w, e) = Inr (w', e')"
  by (auto simp: apply_event_def NS_LOG_UNCOND_def Let_def split: NodeStatus.splits)

lemma ProcessEvent_unfold:
  assumes "WatchdogNode_ProcessEvent now ev (w, e) = Inr (w', e')" and "m_node w = Some n"
  shows "\<exists>e1. apply_event ev n (w, e) = Inr (w', e1) \<and>
           e' = check_convergence now
                  (NS_LOG_UNCOND (Log_State n (classify (m_reputation w') (m_threshold w'))) e1)"
  using assms by (auto simp: WatchdogNode_ProcessEvent_def split: sum.splits)

lemma ProcessEvent_Inr:
  assumes "WatchdogNode_ProcessEvent now ev (w, e) = Inr (w', e')" and "m_node w = Some n"
  shows "w' = w\<lparr>m_reputation := m_reputation w + signed_contribution ev\<rparr>"
    and "\<exists>m tl. log_out e' =
              log_out e @ [m] @ [Log_State n (classify (m_reputation w') (m_threshold w'))] @ tl
            \<and> logged_states [m] = [] \<and> logged_evidence [m] = [(n, ev)]
            \<and> logged_states tl = [] \<and> logged_evidence tl = []"
    and "nodesStatus e' = (if ev = NO_STATUS then nodesStatus e else (nodesStatus e)[n := True])"
    and "sim_events e' = sim_events e"
    and "sim_uid e' = sim_uid e"
proof -
  from ProcessEvent_unfold[OF assms] obtain e1 where a: "apply_event ev n (w, e) = Inr (w', e1)"
    and e': "e' = check_convergence now
                   (NS_LOG_UNCOND (Log_State n (classify (m_reputation w') (m_threshold w'))) e1)"
    by blast
  show "w' = w\<lparr>m_reputation := m_reputation w + signed_contribution ev\<rparr>"
    using apply_event_Inr(1)[OF a] .
  from apply_event_Inr(2)[OF a] obtain m where m: "log_out e1 = log_out e @ [m]"
    "logged_states [m] = []" "logged_evidence [m] = [(n, ev)]" by blast
  from check_convergence_log[of now
      "NS_LOG_UNCOND (Log_State n (classify (m_reputation w') (m_threshold w'))) e1"]
  obtain tl where tl:
    "log_out e' =
       log_out (NS_LOG_UNCOND (Log_State n (classify (m_reputation w') (m_threshold w'))) e1) @ tl"
    "logged_states tl = []" "logged_evidence tl = []" unfolding e' by blast
  show "\<exists>m tl. log_out e' =
              log_out e @ [m] @ [Log_State n (classify (m_reputation w') (m_threshold w'))] @ tl
            \<and> logged_states [m] = [] \<and> logged_evidence [m] = [(n, ev)]
            \<and> logged_states tl = [] \<and> logged_evidence tl = []"
    using m tl by (intro exI[of _ m] exI[of _ tl]) (simp add: NS_LOG_UNCOND_def)
  show "nodesStatus e' = (if ev = NO_STATUS then nodesStatus e else (nodesStatus e)[n := True])"
    using apply_event_Inr(3)[OF a] by (simp add: e' check_convergence_def NS_LOG_UNCOND_def)
  show "sim_events e' = sim_events e" "sim_uid e' = sim_uid e"
    using apply_event_Inr(6,7)[OF a] by (simp_all add: e' check_convergence_def NS_LOG_UNCOND_def)
qed

lemma ProcessEvent_ok:
  assumes "m_node w = Some n" and "ev = NO_STATUS \<or> n < length (nodesStatus e)"
  shows "\<exists>w' e'. WatchdogNode_ProcessEvent now ev (w, e) = Inr (w', e')"
  using apply_event_ok[OF assms(2), of w] assms(1)
  by (auto simp: WatchdogNode_ProcessEvent_def)

lemmas watchdog_defs =
  WatchdogNode_ProcessEvent_def WatchdogNode_Setup_def WatchdogNode_ctor_def Env_init_def
  apply_event_def NS_LOG_UNCOND_def classify_def check_convergence_def

section \<open>Properties of MonitorNode\<close>

lemma randomValue_range:
  "0 < RAND_MAX \<Longrightarrow> r \<le> RAND_MAX \<Longrightarrow>
     0 \<le> randomValue RAND_MAX r \<and> randomValue RAND_MAX r \<le> 1"
  by (simp add: randomValue_def)

lemma MonitorNode_terminal:
  assumes "m_node w = Some n" and "terminal w e"
  shows "WatchdogNode_MonitorNode RAND_MAX this r now (w, e) =
           Inr (w\<lparr>m_packetLossRate := one_minus (u32_div (m_receivedPackets w) (m_sentPackets w))\<rparr>,
                e\<lparr>log_out := log_out e @
                    [Log_Max_Or_Converged n,
                     Log_Packet_Loss_Rate n
                       (one_minus (u32_div (m_receivedPackets w) (m_sentPackets w)))]\<rparr>)"
  using assms by (simp add: WatchdogNode_MonitorNode_def NS_LOG_UNCOND_def Let_def)

lemma MonitorNode_round:
  assumes "m_node w = Some n" and "\<not> terminal w e"
  shows "WatchdogNode_MonitorNode RAND_MAX this r now (w, e) =
     (case WatchdogNode_ProcessEvent now (MonitorNode_event (randomValue RAND_MAX r))
                   (w, NS_LOG_UNCOND (Log_Monitoring n) e) of
        Inl f \<Rightarrow> Inl f
      | Inr (w', e') \<Rightarrow>
          Inr (w'\<lparr>m_monitorCount := m_monitorCount w' + 1, m_event := Some (sim_uid e')\<rparr>,
               e'\<lparr>sim_uid := Suc (sim_uid e'),
                   sim_events := sim_events e' @ [(sim_uid e', now + 1, this)]\<rparr>))"
  using assms by (simp add: WatchdogNode_MonitorNode_def Simulator_Schedule_def split: sum.splits)

lemma MonitorNode_event_bands:
  "(MonitorNode_event rv = POSITIVE_STATUS \<longleftrightarrow> rv < 33 / 100) \<and>
   (MonitorNode_event rv = NEGATIVE_STATUS \<longleftrightarrow> 33 / 100 \<le> rv \<and> rv < 66 / 100) \<and>
   (MonitorNode_event rv = NO_STATUS \<longleftrightarrow> 66 / 100 \<le> rv)"
  by (auto simp: MonitorNode_event_def)

lemmas monitor_defs =
  WatchdogNode_MonitorNode_def terminal_def m_maxMonitorCount_def MonitorNode_event_def
  randomValue_def Simulator_Schedule_def u32_div_def

lemmas greyhole_defs =
  GreyholeNode_ReceivePacket_def GreyholeNode_Setup_def GreyholeNode_ctor_def randomValue_def

section \<open>What one call does to the shared state\<close>

lemma logged_rounds_append: "logged_rounds (xs @ ys) = logged_rounds xs @ logged_rounds ys"
  by (induction xs rule: logged_rounds.induct) simp_all

lemma logged_convergence_append:
  "logged_convergence (xs @ ys) = logged_convergence xs @ logged_convergence ys"
  by (induction xs rule: logged_convergence.induct) simp_all

lemma allNodesHaveInfo_iff: "allNodesHaveInfo bs \<longleftrightarrow> (\<forall>i < length bs. bs ! i)"
proof (induction bs)
  case Nil
  then show ?case by simp
next
  case (Cons b bs)
  then show ?case by (auto simp: nth_Cons split: nat.splits)
qed

text \<open>ProcessEvent, in full, for a watchdog whose node has an entry.\<close>

lemma ProcessEvent_effect:
  assumes "m_node w = Some n" and "ev = NO_STATUS \<or> n < length (nodesStatus e)"
  shows "\<exists>w' e'. WatchdogNode_ProcessEvent now ev (w, e) = Inr (w', e') \<and>
     w' = w\<lparr>m_reputation := m_reputation w + signed_contribution ev\<rparr> \<and>
     nodesStatus e' = (if ev = NO_STATUS then nodesStatus e else (nodesStatus e)[n := True]) \<and>
     sim_events e' = sim_events e \<and> sim_uid e' = sim_uid e \<and>
     allNodesConverged e' = (allNodesConverged e \<or> allNodesHaveInfo (nodesStatus e')) \<and>
     convergenceTime e' =
       (if \<not> allNodesConverged e \<and> allNodesConverged e' then now else convergenceTime e) \<and>
     logged_rounds (log_out e') = logged_rounds (log_out e) \<and>
     logged_convergence (log_out e') =
       logged_convergence (log_out e) @
         (if \<not> allNodesConverged e \<and> allNodesConverged e' then [now] else [])"
  using assms
  by (cases ev)
     (auto simp: WatchdogNode_ProcessEvent_def apply_event_def check_convergence_def NS_LOG_UNCOND_def
        Let_def logged_rounds_append logged_convergence_append)

lemma MonitorNode_effect:
  assumes "m_node w = Some n" and "n < length (nodesStatus e)"
  shows "\<exists>w' e'. WatchdogNode_MonitorNode RAND_MAX this r now (w, e) = Inr (w', e') \<and>
     m_node w' = Some n \<and> m_threshold w' = m_threshold w \<and>
     m_sentPackets w' = m_sentPackets w \<and> m_receivedPackets w' = m_receivedPackets w \<and>
     m_monitorCount w' = (if terminal w e then m_monitorCount w else m_monitorCount w + 1) \<and>
     (nodesStatus e' = nodesStatus e \<or> nodesStatus e' = (nodesStatus e)[n := True]) \<and>
     sim_events e' = sim_events e @ (if terminal w e then [] else [(sim_uid e, now + 1, this)]) \<and>
     allNodesConverged e' =
       (allNodesConverged e \<or> (\<not> terminal w e \<and> allNodesHaveInfo (nodesStatus e'))) \<and>
     convergenceTime e' =
       (if \<not> allNodesConverged e \<and> allNodesConverged e' then now else convergenceTime e) \<and>
     logged_rounds (log_out e') = logged_rounds (log_out e) @ (if terminal w e then [] else [n]) \<and>
     logged_convergence (log_out e') =
       logged_convergence (log_out e) @
         (if \<not> allNodesConverged e \<and> allNodesConverged e' then [now] else [])"
proof (cases "terminal w e")
  case True
  show ?thesis
    using MonitorNode_terminal[OF assms(1) True, of RAND_MAX this r now] True assms(1)
    by (auto simp: logged_rounds_append logged_convergence_append)
next
  case False
  let ?ev = "MonitorNode_event (randomValue RAND_MAX r)"
  let ?e = "NS_LOG_UNCOND (Log_Monitoring n) e"
  have l: "?ev = NO_STATUS \<or> n < length (nodesStatus ?e)" using assms(2) by (simp add: NS_LOG_UNCOND_def)
  from ProcessEvent_effect[OF assms(1) l, of now] obtain w1 e1 where
    p: "WatchdogNode_ProcessEvent now ?ev (w, ?e) = Inr (w1, e1)"
    and w1: "w1 = w\<lparr>m_reputation := m_reputation w + signed_contribution ?ev\<rparr>"
    and ns: "nodesStatus e1 = (if ?ev = NO_STATUS then nodesStatus ?e else (nodesStatus ?e)[n := True])"
    and se: "sim_events e1 = sim_events ?e" "sim_uid e1 = sim_uid ?e"
    and c: "allNodesConverged e1 = (allNodesConverged ?e \<or> allNodesHaveInfo (nodesStatus e1))"
    and ct: "convergenceTime e1 =
       (if \<not> allNodesConverged ?e \<and> allNodesConverged e1 then now else convergenceTime ?e)"
    and lr: "logged_rounds (log_out e1) = logged_rounds (log_out ?e)"
    and lc: "logged_convergence (log_out e1) =
       logged_convergence (log_out ?e) @
         (if \<not> allNodesConverged ?e \<and> allNodesConverged e1 then [now] else [])"
    by blast
  have nc: "\<not> allNodesConverged e" using False by (simp add: terminal_def)
  show ?thesis
    using MonitorNode_round[OF assms(1) False, of RAND_MAX this r now] p False assms(1) nc
      w1 ns se c ct lr lc
    by (auto simp: NS_LOG_UNCOND_def logged_rounds_append logged_convergence_append)
qed

lemma StopApplication_effect:
  assumes "m_node w = Some n"
  shows "\<exists>e'. WatchdogNode_StopApplication (w, e) = Inr (w, e') \<and>
     nodesStatus e' = nodesStatus e \<and> allNodesConverged e' = allNodesConverged e \<and>
     convergenceTime e' = convergenceTime e \<and> set (sim_events e') \<subseteq> set (sim_events e) \<and>
     logged_rounds (log_out e') = logged_rounds (log_out e) \<and>
     logged_convergence (log_out e') = logged_convergence (log_out e)"
  using assms
  by (auto simp: WatchdogNode_StopApplication_def Simulator_Cancel_def NS_LOG_UNCOND_def
      logged_rounds_append logged_convergence_append split: option.splits)

lemma world_step_cases:
  assumes ok: "world_ok (ws, e)"
  shows "\<exists>ws' e'. world_step RAND_MAX a (ws, e) = Inr (ws', e') \<and> world_ok (ws', e') \<and>
     length ws' = length ws \<and>
     ((ws' = ws \<and> nodesStatus e' = nodesStatus e \<and> allNodesConverged e' = allNodesConverged e \<and>
       convergenceTime e' = convergenceTime e \<and>
       logged_rounds (log_out e') = logged_rounds (log_out e) \<and>
       logged_convergence (log_out e') = logged_convergence (log_out e))
      \<or> (\<exists>u r t this w'. a = Fire u r \<and> this < length ws \<and>
            WatchdogNode_MonitorNode RAND_MAX this r t
               (ws ! this, e\<lparr>sim_events := filter (\<lambda>x. fst x \<noteq> u) (sim_events e)\<rparr>) = Inr (w', e') \<and>
            ws' = ws[this := w']))"
proof (cases a)
  case (Stop i)
  show ?thesis
  proof (cases "i < length ws")
    case True
    then have n: "m_node (ws ! i) = Some i" using ok by (simp add: world_ok_def)
    from StopApplication_effect[OF n, of e] obtain e' where
      s: "WatchdogNode_StopApplication (ws ! i, e) = Inr (ws ! i, e')"
      and f: "nodesStatus e' = nodesStatus e" "allNodesConverged e' = allNodesConverged e"
        "convergenceTime e' = convergenceTime e" "set (sim_events e') \<subseteq> set (sim_events e)"
        "logged_rounds (log_out e') = logged_rounds (log_out e)"
        "logged_convergence (log_out e') = logged_convergence (log_out e)"
      by blast
    have st: "world_step RAND_MAX a (ws, e) = Inr (ws, e')"
      using Stop True s by (simp add: world_step_def)
    have "world_ok (ws, e')" using ok f(1,4) by (auto simp: world_ok_def)
    with st f show ?thesis by blast
  next
    case False
    then have "world_step RAND_MAX a (ws, e) = Inr (ws, e)" using Stop by (simp add: world_step_def)
    with ok show ?thesis by blast
  qed
next
  case (Fire u r)
  show ?thesis
  proof (cases "map_of (sim_events e) u")
    case None
    then have "world_step RAND_MAX a (ws, e) = Inr (ws, e)" using Fire by (simp add: world_step_def)
    with ok show ?thesis by blast
  next
    case (Some tt)
    obtain t this where tt: "tt = (t, this)" by (cases tt)
    have mem: "(u, t, this) \<in> set (sim_events e)" using Some tt by (auto dest: map_of_SomeD)
    then have th: "this < length ws" using ok by (fastforce simp: world_ok_def)
    let ?e1 = "e\<lparr>sim_events := filter (\<lambda>x. fst x \<noteq> u) (sim_events e)\<rparr>"
    have n: "m_node (ws ! this) = Some this" using ok th by (simp add: world_ok_def)
    have l: "this < length (nodesStatus ?e1)" using ok th by (simp add: world_ok_def)
    from MonitorNode_effect[OF n l, of RAND_MAX this r t] obtain w' e' where
      m: "WatchdogNode_MonitorNode RAND_MAX this r t (ws ! this, ?e1) = Inr (w', e')"
      and n': "m_node w' = Some this"
      and ns: "nodesStatus e' = nodesStatus ?e1 \<or> nodesStatus e' = (nodesStatus ?e1)[this := True]"
      and se: "sim_events e' = sim_events ?e1 @
                 (if terminal (ws ! this) ?e1 then [] else [(sim_uid ?e1, t + 1, this)])"
      by blast
    have st: "world_step RAND_MAX a (ws, e) = Inr (ws[this := w'], e')"
      using Fire Some tt th m by (simp add: world_step_def)
    have len: "length (nodesStatus e') = length (nodesStatus e)" using ns by auto
    have ok': "world_ok (ws[this := w'], e')"
      unfolding world_ok_def using ok th n' len se
      by (auto simp: world_ok_def nth_list_update split: if_splits)
    from st ok' th m Fire show ?thesis by auto
  qed
qed

lemma world_run_ok:
  assumes "world_ok W"
  shows "\<exists>W'. world_run RAND_MAX acts W = Inr W' \<and> world_ok W' \<and> length (fst W') = length (fst W)"
  using assms
proof (induction acts arbitrary: W)
  case Nil
  then show ?case by simp
next
  case (Cons a acts)
  obtain ws e where W: "W = (ws, e)" by (cases W)
  from world_step_cases[of ws e RAND_MAX a] Cons.prems W obtain ws' e' where
    s: "world_step RAND_MAX a (ws, e) = Inr (ws', e')" "world_ok (ws', e')" "length ws' = length ws"
    by blast
  from Cons.IH[OF s(2)] s(1,3) W show ?case by auto
qed

lemma world_run_append:
  "world_run RAND_MAX (as @ bs) W =
     (case world_run RAND_MAX as W of Inl f \<Rightarrow> Inl f | Inr W' \<Rightarrow> world_run RAND_MAX bs W')"
  by (induction as arbitrary: W) (auto split: sum.splits)

section \<open>Runs of the simulation\<close>

lemma world_run_invariant:
  assumes "world_ok W" and "P W"
    and step: "\<And>W a W'. world_ok W \<Longrightarrow> P W \<Longrightarrow> world_step RAND_MAX a W = Inr W' \<Longrightarrow> P W'"
  shows "\<exists>W'. world_run RAND_MAX acts W = Inr W' \<and> world_ok W' \<and> P W'"
  using assms(1,2)
proof (induction acts arbitrary: W)
  case Nil
  then show ?case by simp
next
  case (Cons a acts)
  obtain ws e where W: "W = (ws, e)" by (cases W)
  from world_step_cases[of ws e RAND_MAX a] Cons.prems(1) W obtain W1 where
    s: "world_step RAND_MAX a W = Inr W1" "world_ok W1" by blast
  have "P W1" using step[OF Cons.prems s(1)] .
  from Cons.IH[OF s(2) this] s(1) show ?case by simp
qed

lemma StartApplication_effect:
  assumes "m_node w = Some n"
  shows "\<exists>e'. WatchdogNode_StartApplication this now (w, e) = Inr (w\<lparr>m_event := Some (sim_uid e)\<rparr>, e') \<and>
     nodesStatus e' = nodesStatus e \<and> allNodesConverged e' = allNodesConverged e \<and>
     convergenceTime e' = convergenceTime e \<and>
     sim_events e' = sim_events e @ [(sim_uid e, now + 1, this)] \<and>
     logged_rounds (log_out e') = logged_rounds (log_out e) \<and>
     logged_convergence (log_out e') = logged_convergence (log_out e)"
  using assms
  by (auto simp: WatchdogNode_StartApplication_def Simulator_Schedule_def NS_LOG_UNCOND_def
      logged_rounds_append logged_convergence_append)

lemma start_apps_effect:
  assumes "\<forall>i \<in> set is. i < length ws" and "\<forall>i < length ws. m_node (ws ! i) = Some i"
    and "\<forall>x \<in> set (sim_events e). snd (snd x) < length ws"
  shows "\<exists>ws' e'. start_apps now is (ws, e) = Inr (ws', e') \<and> length ws' = length ws \<and>
     (\<forall>i < length ws. m_node (ws' ! i) = Some i \<and> m_monitorCount (ws' ! i) = m_monitorCount (ws ! i)) \<and>
     (\<forall>x \<in> set (sim_events e'). snd (snd x) < length ws) \<and>
     nodesStatus e' = nodesStatus e \<and> allNodesConverged e' = allNodesConverged e \<and>
     convergenceTime e' = convergenceTime e \<and>
     logged_rounds (log_out e') = logged_rounds (log_out e) \<and>
     logged_convergence (log_out e') = logged_convergence (log_out e)"
  using assms
proof (induction "is" arbitrary: ws e)
  case Nil
  then show ?case by simp
next
  case (Cons i "is")
  have i: "i < length ws" and n: "m_node (ws ! i) = Some i" using Cons.prems(1,2) by auto
  from StartApplication_effect[OF n, of i now e] obtain e1 where
    s: "WatchdogNode_StartApplication i now (ws ! i, e) = Inr ((ws ! i)\<lparr>m_event := Some (sim_uid e)\<rparr>, e1)"
    and f: "nodesStatus e1 = nodesStatus e" "allNodesConverged e1 = allNodesConverged e"
      "convergenceTime e1 = convergenceTime e"
      "sim_events e1 = sim_events e @ [(sim_uid e, now + 1, i)]"
      "logged_rounds (log_out e1) = logged_rounds (log_out e)"
      "logged_convergence (log_out e1) = logged_convergence (log_out e)"
    by blast
  let ?ws1 = "ws[i := (ws ! i)\<lparr>m_event := Some (sim_uid e)\<rparr>]"
  have p1: "\<forall>j \<in> set is. j < length ?ws1" using Cons.prems(1) by simp
  have p2: "\<forall>j < length ?ws1. m_node (?ws1 ! j) = Some j"
    using Cons.prems(2) i by (auto simp: nth_list_update)
  have p3: "\<forall>x \<in> set (sim_events e1). snd (snd x) < length ?ws1"
    using Cons.prems(3) i f(4) by auto
  from Cons.IH[OF p1 p2 p3] obtain ws' e' where
    r: "start_apps now is (?ws1, e1) = Inr (ws', e')" "length ws' = length ?ws1"
      "\<forall>j < length ?ws1. m_node (ws' ! j) = Some j \<and> m_monitorCount (ws' ! j) = m_monitorCount (?ws1 ! j)"
      "\<forall>x \<in> set (sim_events e'). snd (snd x) < length ?ws1"
      "nodesStatus e' = nodesStatus e1" "allNodesConverged e' = allNodesConverged e1"
      "convergenceTime e' = convergenceTime e1"
      "logged_rounds (log_out e') = logged_rounds (log_out e1)"
      "logged_convergence (log_out e') = logged_convergence (log_out e1)"
    by blast
  have "start_apps now (i # is) (ws, e) = Inr (ws', e')" using s r(1) by simp
  moreover have "\<forall>j < length ws. m_node (ws' ! j) = Some j \<and> m_monitorCount (ws' ! j) = m_monitorCount (ws ! j)"
    using r(3) i by (auto simp: nth_list_update)
  ultimately show ?case using r(2,4-) f by auto
qed

lemma main_world_ok:
  assumes "k \<le> n"
  shows "\<exists>ws e. main_world n k = Inr (ws, e) \<and> world_ok (ws, e) \<and> length ws = k \<and>
     (\<forall>i < k. m_monitorCount (ws ! i) = 0) \<and>
     nodesStatus e = replicate n False \<and> \<not> allNodesConverged e \<and> convergenceTime e = 0 \<and>
     logged_rounds (log_out e) = [] \<and> logged_convergence (log_out e) = []"
proof -
  let ?ws = "map (\<lambda>i. WatchdogNode_Setup i (1 / 2) WatchdogNode_ctor) [0..<k]"
  let ?e = "Env_init\<lparr>nodesStatus := replicate n False\<rparr>"
  have a: "\<forall>i \<in> set [0..<k]. i < length ?ws" by simp
  have b: "\<forall>i < length ?ws. m_node (?ws ! i) = Some i" by (simp add: WatchdogNode_Setup_def)
  have c: "\<forall>x \<in> set (sim_events ?e). snd (snd x) < length ?ws" by (simp add: Env_init_def)
  from start_apps_effect[OF a b c, of 1] obtain ws' e' where
    r: "start_apps 1 [0..<k] (?ws, ?e) = Inr (ws', e')" "length ws' = length ?ws"
      "\<forall>i < length ?ws. m_node (ws' ! i) = Some i \<and> m_monitorCount (ws' ! i) = m_monitorCount (?ws ! i)"
      "\<forall>x \<in> set (sim_events e'). snd (snd x) < length ?ws"
      "nodesStatus e' = nodesStatus ?e" "allNodesConverged e' = allNodesConverged ?e"
      "convergenceTime e' = convergenceTime ?e"
      "logged_rounds (log_out e') = logged_rounds (log_out ?e)"
      "logged_convergence (log_out e') = logged_convergence (log_out ?e)"
    by blast
  have "main_world n k = Inr (ws', e')" using r(1) by (simp add: main_world_def)
  moreover have "world_ok (ws', e')" using r(2,3,4,5) assms by (simp add: world_ok_def)
  moreover have "\<forall>i < k. m_monitorCount (ws' ! i) = 0"
    using r(3) by (simp add: WatchdogNode_Setup_def WatchdogNode_ctor_def)
  ultimately show ?thesis using r(2,5-) by (simp add: Env_init_def)
qed

lemma count_inc:
  fixes c :: "32 word"
  assumes "\<not> m_maxMonitorCount \<le> c"
  shows "unat (c + 1) = Suc (unat c)" and "c + 1 \<le> m_maxMonitorCount"
proof -
  have "unat c < 10" using assms by (simp add: m_maxMonitorCount_def word_le_nat_alt)
  then show "unat (c + 1) = Suc (unat c)" by (simp add: unat_word_ariths)
  then show "c + 1 \<le> m_maxMonitorCount" using \<open>unat c < 10\<close>
    by (simp add: m_maxMonitorCount_def word_le_nat_alt)
qed

lemma world_step_Fire:
  assumes ok: "world_ok (ws, e)" and st: "world_step RAND_MAX a (ws, e) = Inr (ws', e')"
  shows "(ws' = ws \<and> nodesStatus e' = nodesStatus e \<and> allNodesConverged e' = allNodesConverged e \<and>
       convergenceTime e' = convergenceTime e \<and>
       logged_rounds (log_out e') = logged_rounds (log_out e) \<and>
       logged_convergence (log_out e') = logged_convergence (log_out e))
      \<or> (\<exists>t this w'. this < length ws \<and> m_node (ws ! this) = Some this \<and> ws' = ws[this := w'] \<and>
     m_monitorCount w' =
        (if terminal (ws ! this) e then m_monitorCount (ws ! this) else m_monitorCount (ws ! this) + 1) \<and>
     (nodesStatus e' = nodesStatus e \<or> nodesStatus e' = (nodesStatus e)[this := True]) \<and>
     allNodesConverged e' =
       (allNodesConverged e \<or> (\<not> terminal (ws ! this) e \<and> allNodesHaveInfo (nodesStatus e'))) \<and>
     convergenceTime e' =
       (if \<not> allNodesConverged e \<and> allNodesConverged e' then t else convergenceTime e) \<and>
     logged_rounds (log_out e') =
       logged_rounds (log_out e) @ (if terminal (ws ! this) e then [] else [this]) \<and>
     logged_convergence (log_out e') =
       logged_convergence (log_out e) @
         (if \<not> allNodesConverged e \<and> allNodesConverged e' then [t] else []))"
proof -
  from world_step_cases[OF ok, of RAND_MAX a] st
  consider (same) "ws' = ws \<and> nodesStatus e' = nodesStatus e \<and> allNodesConverged e' = allNodesConverged e \<and>
       convergenceTime e' = convergenceTime e \<and>
       logged_rounds (log_out e') = logged_rounds (log_out e) \<and>
       logged_convergence (log_out e') = logged_convergence (log_out e)"
    | (fire) u r t this w' where "a = Fire u r" "this < length ws"
        "WatchdogNode_MonitorNode RAND_MAX this r t
               (ws ! this, e\<lparr>sim_events := filter (\<lambda>x. fst x \<noteq> u) (sim_events e)\<rparr>) = Inr (w', e')"
        "ws' = ws[this := w']"
    by auto
  then show ?thesis
  proof cases
    case same
    then show ?thesis by blast
  next
    case fire
    let ?e1 = "e\<lparr>sim_events := filter (\<lambda>x. fst x \<noteq> u) (sim_events e)\<rparr>"
    have n: "m_node (ws ! this) = Some this" using ok fire(2) by (simp add: world_ok_def)
    have l: "this < length (nodesStatus ?e1)" using ok fire(2) by (simp add: world_ok_def)
    have t: "terminal (ws ! this) ?e1 = terminal (ws ! this) e" by (simp add: terminal_def)
    from MonitorNode_effect[OF n l, of RAND_MAX this r t] fire(3) t
    have "m_monitorCount w' =
        (if terminal (ws ! this) e then m_monitorCount (ws ! this) else m_monitorCount (ws ! this) + 1) \<and>
     (nodesStatus e' = nodesStatus e \<or> nodesStatus e' = (nodesStatus e)[this := True]) \<and>
     allNodesConverged e' =
       (allNodesConverged e \<or> (\<not> terminal (ws ! this) e \<and> allNodesHaveInfo (nodesStatus e'))) \<and>
     convergenceTime e' =
       (if \<not> allNodesConverged e \<and> allNodesConverged e' then t else convergenceTime e) \<and>
     logged_rounds (log_out e') =
       logged_rounds (log_out e) @ (if terminal (ws ! this) e then [] else [this]) \<and>
     logged_convergence (log_out e') =
       logged_convergence (log_out e) @
         (if \<not> allNodesConverged e \<and> allNodesConverged e' then [t] else [])"
      by auto
    with fire(2,4) n show ?thesis by blast
  qed
qed

lemma rounds_inv_step:
  assumes "world_ok W" and "rounds_inv W" and "world_step RAND_MAX a W = Inr W'"
  shows "rounds_inv W'"
proof -
  obtain ws e ws' e' where W: "W = (ws, e)" "W' = (ws', e')" by (cases W, cases W')
  from world_step_Fire[of ws e RAND_MAX a ws' e'] assms(1,3) W
  consider (same) "ws' = ws" "logged_rounds (log_out e') = logged_rounds (log_out e)"
    | (fire) this w' where "this < length ws" "ws' = ws[this := w']"
      "m_monitorCount w' =
        (if terminal (ws ! this) e then m_monitorCount (ws ! this) else m_monitorCount (ws ! this) + 1)"
      "logged_rounds (log_out e') =
         logged_rounds (log_out e) @ (if terminal (ws ! this) e then [] else [this])"
    by blast
  then show ?thesis
  proof cases
    case same
    then show ?thesis using assms(2) W by (simp add: rounds_inv_def)
  next
    case fire
    have R: "\<forall>i < length ws. count_list (logged_rounds (log_out e)) i = unat (m_monitorCount (ws ! i)) \<and>
      m_monitorCount (ws ! i) \<le> m_maxMonitorCount"
      using assms(2) W by (simp add: rounds_inv_def)
    show ?thesis
    proof (cases "terminal (ws ! this) e")
      case True
      then show ?thesis using fire R W by (auto simp: rounds_inv_def nth_list_update)
    next
      case False
      then have "\<not> m_maxMonitorCount \<le> m_monitorCount (ws ! this)" by (simp add: terminal_def)
      note inc = count_inc[OF this]
      show ?thesis using fire R W False inc by (auto simp: rounds_inv_def nth_list_update)
    qed
  qed
qed

lemma unconverged_inv_step:
  assumes "world_ok W" and "unconverged_inv W" and "world_step RAND_MAX a W = Inr W'"
  shows "unconverged_inv W'"
proof -
  obtain ws e ws' e' where W: "W = (ws, e)" "W' = (ws', e')" by (cases W, cases W')
  from assms(2) W obtain j where j: "length ws \<le> j" "j < length (nodesStatus e)" "\<not> nodesStatus e ! j"
    and u: "\<not> allNodesConverged e" "convergenceTime e = 0" "logged_convergence (log_out e) = []"
    by (auto simp: unconverged_inv_def)
  from world_step_Fire[of ws e RAND_MAX a ws' e'] assms(1,3) W
  consider (same) "ws' = ws" "nodesStatus e' = nodesStatus e" "allNodesConverged e' = allNodesConverged e"
       "convergenceTime e' = convergenceTime e"
       "logged_convergence (log_out e') = logged_convergence (log_out e)"
    | (fire) t this w' where "this < length ws" "ws' = ws[this := w']"
     "nodesStatus e' = nodesStatus e \<or> nodesStatus e' = (nodesStatus e)[this := True]"
     "allNodesConverged e' =
       (allNodesConverged e \<or> (\<not> terminal (ws ! this) e \<and> allNodesHaveInfo (nodesStatus e')))"
     "convergenceTime e' =
       (if \<not> allNodesConverged e \<and> allNodesConverged e' then t else convergenceTime e)"
     "logged_convergence (log_out e') =
       logged_convergence (log_out e) @
         (if \<not> allNodesConverged e \<and> allNodesConverged e' then [t] else [])"
    by blast
  then show ?thesis
  proof cases
    case same
    then show ?thesis using j u W by (auto simp: unconverged_inv_def)
  next
    case fire
    have j': "j < length (nodesStatus e')" "\<not> nodesStatus e' ! j"
      using fire(1,3) j by auto
    then have "\<not> allNodesHaveInfo (nodesStatus e')" by (auto simp: allNodesHaveInfo_iff)
    then have "\<not> allNodesConverged e'" using fire(4) u(1) by simp
    then show ?thesis using fire j j' u W by (auto simp: unconverged_inv_def)
  qed
qed

lemma convergence_inv_step:
  assumes "world_ok W" and "convergence_inv W" and "world_step RAND_MAX a W = Inr W'"
  shows "convergence_inv W'"
proof -
  obtain ws e ws' e' where W: "W = (ws, e)" "W' = (ws', e')" by (cases W, cases W')
  from world_step_Fire[of ws e RAND_MAX a ws' e'] assms(1,3) W
  consider (same) "allNodesConverged e' = allNodesConverged e"
       "convergenceTime e' = convergenceTime e"
       "logged_convergence (log_out e') = logged_convergence (log_out e)"
    | (fire) t this where
     "allNodesConverged e' =
       (allNodesConverged e \<or> (\<not> terminal (ws ! this) e \<and> allNodesHaveInfo (nodesStatus e')))"
     "convergenceTime e' =
       (if \<not> allNodesConverged e \<and> allNodesConverged e' then t else convergenceTime e)"
     "logged_convergence (log_out e') =
       logged_convergence (log_out e) @
         (if \<not> allNodesConverged e \<and> allNodesConverged e' then [t] else [])"
    by blast
  then show ?thesis
  proof cases
    case same
    then show ?thesis using assms(2) W by (simp add: convergence_inv_def)
  next
    case fire
    then show ?thesis using assms(2) W by (auto simp: convergence_inv_def)
  qed
qed

lemma converged_stays_step:
  assumes "world_ok W" and "world_step RAND_MAX a W = Inr W'" and "allNodesConverged (snd W)"
  shows "allNodesConverged (snd W') \<and> convergenceTime (snd W') = convergenceTime (snd W)"
proof -
  obtain ws e ws' e' where W: "W = (ws, e)" "W' = (ws', e')" by (cases W, cases W')
  from world_step_Fire[of ws e RAND_MAX a ws' e'] assms W show ?thesis by auto
qed

text \<open>Unfolding a list of known length, for evaluating concrete runs.\<close>

lemma replicate_unfold: "0 < n \<Longrightarrow> replicate n x = x # replicate (n - 1) x"
  by (cases n) simp_all

lemmas world_defs = run_main_def main_world_def WatchdogNode_StartApplication_def
  world_step_def WatchdogNode_StopApplication_def Simulator_Cancel_def replicate_unfold
  word_le_nat_alt upt_conv_Cons

lemma run_main_invariant:
  assumes "k \<le> n"
    and init: "\<And>ws e. main_world n k = Inr (ws, e) \<Longrightarrow> world_ok (ws, e) \<Longrightarrow> length ws = k \<Longrightarrow>
       (\<forall>i < k. m_monitorCount (ws ! i) = 0) \<Longrightarrow>
       nodesStatus e = replicate n False \<Longrightarrow> \<not> allNodesConverged e \<Longrightarrow> convergenceTime e = 0 \<Longrightarrow>
       logged_rounds (log_out e) = [] \<Longrightarrow> logged_convergence (log_out e) = [] \<Longrightarrow> P (ws, e)"
    and step: "\<And>W a W'. world_ok W \<Longrightarrow> P W \<Longrightarrow> world_step RAND_MAX a W = Inr W' \<Longrightarrow> P W'"
  shows "\<exists>ws e. run_main RAND_MAX n k acts = Inr (ws, e) \<and> world_ok (ws, e) \<and> length ws = k \<and> P (ws, e)"
proof -
  from main_world_ok[OF assms(1)] obtain ws e where
    m: "main_world n k = Inr (ws, e)" "world_ok (ws, e)" "length ws = k"
      "\<forall>i < k. m_monitorCount (ws ! i) = 0"
      "nodesStatus e = replicate n False" "\<not> allNodesConverged e" "convergenceTime e = 0"
      "logged_rounds (log_out e) = []" "logged_convergence (log_out e) = []"
    by blast
  have P0: "P (ws, e)" using init[OF m] .
  have "\<exists>W'. world_run RAND_MAX acts (ws, e) = Inr W' \<and> world_ok W' \<and> P W'"
  proof (rule world_run_invariant[where P = P and W = "(ws, e)", OF m(2) P0])
    fix W :: World and a W'
    assume "world_ok W" "P W" "world_step RAND_MAX a W = Inr W'"
    then show "P W'" by (rule step)
  qed
  then obtain W' where
    r: "world_run RAND_MAX acts (ws, e) = Inr W'" "world_ok W'" "P W'" by blast
  from world_run_ok[OF m(2), of RAND_MAX acts] r(1) have "length (fst W') = k" using m(3) by auto
  then show ?thesis using r m(1) by (cases W') (auto simp: run_main_def)
qed

section \<open>The lifetime of one instance\<close>

lemma do_call_counters:
  assumes "do_call RAND_MAX this c (w, e) = Inr (w', e')"
  shows "m_sentPackets w' = m_sentPackets w \<and> m_receivedPackets w' = m_receivedPackets w"
proof (cases c)
  case (Call_Setup node gamma)
  then show ?thesis using assms by (auto simp: do_call_def WatchdogNode_Setup_def)
next
  case (Call_StartApplication now)
  then show ?thesis using assms
    by (auto simp: do_call_def WatchdogNode_StartApplication_def Simulator_Schedule_def
        split: option.splits)
next
  case Call_StopApplication
  then show ?thesis using assms
    by (auto simp: do_call_def WatchdogNode_StopApplication_def split: option.splits)
next
  case (Call_MonitorNode r now)
  with assms have m: "WatchdogNode_MonitorNode RAND_MAX this r now (w, e) = Inr (w', e')"
    by (simp add: do_call_def)
  then obtain n where n: "m_node w = Some n"
    by (cases "m_node w") (auto simp: WatchdogNode_MonitorNode_def)
  show ?thesis
  proof (cases "terminal w e")
    case True
    from MonitorNode_terminal[OF n True, of RAND_MAX this r now] m show ?thesis by auto
  next
    case False
    from MonitorNode_round[OF n False, of RAND_MAX this r now] m obtain w1 e1 where
      p: "WatchdogNode_ProcessEvent now (MonitorNode_event (randomValue RAND_MAX r))
            (w, NS_LOG_UNCOND (Log_Monitoring n) e) = Inr (w1, e1)"
      and w': "w' = w1\<lparr>m_monitorCount := m_monitorCount w1 + 1, m_event := Some (sim_uid e1)\<rparr>"
      by (auto split: sum.splits)
    from ProcessEvent_Inr(1)[OF p n] w' show ?thesis by simp
  qed
next
  case (Call_ProcessEvent ev now)
  with assms have p: "WatchdogNode_ProcessEvent now ev (w, e) = Inr (w', e')"
    by (simp add: do_call_def)
  then obtain n where n: "m_node w = Some n"
    by (cases "m_node w") (auto simp: WatchdogNode_ProcessEvent_def)
  from ProcessEvent_Inr(1)[OF p n] show ?thesis by simp
qed

lemma lifetime_counters:
  assumes "lifetime RAND_MAX this cs w = Inr w'"
  shows "m_sentPackets w' = m_sentPackets w \<and> m_receivedPackets w' = m_receivedPackets w"
  using assms
proof (induction cs arbitrary: w)
  case Nil
  then show ?case by simp
next
  case (Cons ce cs)
  obtain c e where ce: "ce = (c, e)" by (cases ce)
  from Cons.prems ce obtain w1 e1 where
    d: "do_call RAND_MAX this c (w, e) = Inr (w1, e1)" and l: "lifetime RAND_MAX this cs w1 = Inr w'"
    by (auto split: sum.splits)
  from Cons.IH[OF l] do_call_counters[OF d] show ?case by simp
qed

text \<open>The first round of each of the 24 watchdogs of \<open>main\<close>, every draw being 0.\<close>

lemma main_first_rounds:
  "(case run_main 2147483647 27 24 [Fire 0 0, Fire 1 0, Fire 2 0, Fire 3 0, Fire 4 0, Fire 5 0, Fire 6 0, Fire 7 0, Fire 8 0, Fire 9 0, Fire 10 0, Fire 11 0, Fire 12 0, Fire 13 0, Fire 14 0, Fire 15 0, Fire 16 0, Fire 17 0, Fire 18 0, Fire 19 0, Fire 20 0, Fire 21 0, Fire 22 0, Fire 23 0]
    of Inl f \<Rightarrow> False
     | Inr (ws, e) \<Rightarrow> nodesStatus e = replicate 24 True @ replicate 3 False \<and> map m_reputation ws = replicate 24 1)"
  by (simp add: world_defs watchdog_defs monitor_defs)

section \<open>The claims\<close>

text \<open>
  C6. Classification against the threshold, which the constructor fixes at 1.0 and
  nothing changes, is by exact three-way bands. A call of \<open>ProcessEvent\<close> by the
  watchdog of node \<open>n\<close> logs exactly one state, computed from the reputation after the
  event was applied: POSITIVE_STATUS (trustworthy) exactly when the reputation is at
  least the threshold, NEGATIVE_STATUS (malicious) exactly when it is strictly below
  minus the threshold, NO_STATUS (undecided) exactly in between; so a reputation equal
  to minus the threshold is undecided and one equal to the threshold is trustworthy.
\<close>

theorem C6_classification_bands:
  assumes "WatchdogNode_ProcessEvent now ev (w, e) = Inr (w', e')"
    and "m_node w = Some n" and "0 < m_threshold w"
  shows "m_threshold w' = m_threshold w \<and>
    (\<exists>st. logged_states (log_out e') = logged_states (log_out e) @ [(n, st)] \<and>
       (st = POSITIVE_STATUS \<longleftrightarrow> m_reputation w' \<ge> m_threshold w) \<and>
       (st = NEGATIVE_STATUS \<longleftrightarrow> m_reputation w' < - m_threshold w) \<and>
       (st = NO_STATUS \<longleftrightarrow> - m_threshold w \<le> m_reputation w' \<and> m_reputation w' < m_threshold w))"
proof -
  have t: "m_threshold w' = m_threshold w"
    using ProcessEvent_Inr(1)[OF assms(1,2)] by simp
  from ProcessEvent_Inr(2)[OF assms(1,2)] obtain m tl where
    l: "log_out e' =
          log_out e @ [m] @ [Log_State n (classify (m_reputation w') (m_threshold w'))] @ tl"
    "logged_states [m] = []" "logged_states tl = []" by blast
  have "logged_states (log_out e') =
          logged_states (log_out e) @ [(n, classify (m_reputation w') (m_threshold w))]"
    unfolding l(1) logged_states_append l(2,3) t by simp
  then show ?thesis using classify_bands[OF assms(3), of "m_reputation w'"] t by blast
qed

text \<open>
  The watchdog of node 0, fresh from the constructor (reputation 0, threshold 1), sees
  a negative event at time 2: its reputation is -1, which is minus the threshold, and
  the state logged is NO_STATUS.
\<close>

theorem C6_classification_bands_witness:
  "WatchdogNode_ProcessEvent 2 NEGATIVE_STATUS
      (WatchdogNode_Setup 0 (1 / 2) WatchdogNode_ctor, Env_init\<lparr>nodesStatus := [False, False]\<rparr>)
    = Inr (WatchdogNode_Setup 0 (1 / 2) WatchdogNode_ctor\<lparr>m_reputation := - 1\<rparr>,
           Env_init\<lparr>nodesStatus := [True, False],
                    log_out := [Log_Negative_Event 0 (- 1), Log_State 0 NO_STATUS]\<rparr>)
   \<and> m_threshold (WatchdogNode_Setup 0 (1 / 2) WatchdogNode_ctor) = 1
   \<and> logged_states [Log_Negative_Event 0 (- 1), Log_State 0 NO_STATUS] = [(0, NO_STATUS)]"
proof -
  let ?w = "WatchdogNode_Setup 0 (1 / 2) WatchdogNode_ctor"
  let ?e = "Env_init\<lparr>nodesStatus := [False, False]\<rparr>"
  let ?w' = "?w\<lparr>m_reputation := - 1\<rparr>"
  let ?e' = "Env_init\<lparr>nodesStatus := [True, False],
                      log_out := [Log_Negative_Event 0 (- 1), Log_State 0 NO_STATUS]\<rparr>"
  have run: "WatchdogNode_ProcessEvent 2 NEGATIVE_STATUS (?w, ?e) = Inr (?w', ?e')"
    by (simp add: watchdog_defs)
  have n: "m_node ?w = Some 0" and t: "0 < m_threshold ?w" and t1: "m_threshold ?w = 1"
    by (simp_all add: watchdog_defs)
  from C6_classification_bands[OF run n t] obtain st where
    "logged_states (log_out ?e') = logged_states (log_out ?e) @ [(0, st)]"
    "st = NO_STATUS \<longleftrightarrow> - m_threshold ?w \<le> m_reputation ?w' \<and> m_reputation ?w' < m_threshold ?w"
    by blast
  then have "logged_states [Log_Negative_Event 0 (- 1), Log_State 0 NO_STATUS] = [(0, NO_STATUS)]"
    by (simp add: watchdog_defs)
  with run t1 show ?thesis by blast
qed

text \<open>
  C4, as the code has it. A round that is not terminal draws one value
  \<open>rand() / RAND_MAX\<close>, which lies between 0 and 1 with both ends possible, and
  processes exactly one event: POSITIVE_STATUS when the value is below 0.33,
  NEGATIVE_STATUS when it is at least 0.33 and below 0.66, NO_STATUS otherwise. The
  bounds are the literals 0.33 and 0.66 of lines 181 and 185, not thirds. (No double
  lies between the real 0.33 and the double nearest to it, nor between 0.66 and its
  nearest double, so comparing a double with the literal is comparing its value with
  the decimal fraction.)
\<close>

theorem C4_evidence_bands:
  assumes "m_node w = Some n" and "\<not> terminal w e" and "n < length (nodesStatus e)"
    and "0 < RAND_MAX" and "r \<le> RAND_MAX"
  shows "\<exists>w' e' ev. WatchdogNode_MonitorNode RAND_MAX this r now (w, e) = Inr (w', e') \<and>
      logged_evidence (log_out e') = logged_evidence (log_out e) @ [(n, ev)] \<and>
      0 \<le> randomValue RAND_MAX r \<and> randomValue RAND_MAX r \<le> 1 \<and>
      (ev = POSITIVE_STATUS \<longleftrightarrow> randomValue RAND_MAX r < 33 / 100) \<and>
      (ev = NEGATIVE_STATUS \<longleftrightarrow>
         33 / 100 \<le> randomValue RAND_MAX r \<and> randomValue RAND_MAX r < 66 / 100) \<and>
      (ev = NO_STATUS \<longleftrightarrow> 66 / 100 \<le> randomValue RAND_MAX r)"
proof -
  let ?ev = "MonitorNode_event (randomValue RAND_MAX r)"
  let ?e = "NS_LOG_UNCOND (Log_Monitoring n) e"
  have "n < length (nodesStatus ?e)" using assms(3) by (simp add: NS_LOG_UNCOND_def)
  with ProcessEvent_ok[OF assms(1), of ?ev ?e now] obtain w1 e1 where
    p: "WatchdogNode_ProcessEvent now ?ev (w, ?e) = Inr (w1, e1)" by blast
  from ProcessEvent_Inr(2)[OF p assms(1)] obtain m tl where
    l: "log_out e1 =
          log_out ?e @ [m] @ [Log_State n (classify (m_reputation w1) (m_threshold w1))] @ tl"
     "logged_evidence [m] = [(n, ?ev)]" "logged_evidence tl = []" by blast
  have le: "logged_evidence (log_out e1) = logged_evidence (log_out e) @ [(n, ?ev)]"
    unfolding l(1) logged_evidence_append l(2,3)
    by (simp add: NS_LOG_UNCOND_def logged_evidence_append)
  let ?w' = "w1\<lparr>m_monitorCount := m_monitorCount w1 + 1, m_event := Some (sim_uid e1)\<rparr>"
  let ?e' = "e1\<lparr>sim_uid := Suc (sim_uid e1),
                 sim_events := sim_events e1 @ [(sim_uid e1, now + 1, this)]\<rparr>"
  have "WatchdogNode_MonitorNode RAND_MAX this r now (w, e) = Inr (?w', ?e')"
    using MonitorNode_round[OF assms(1,2), of RAND_MAX this r now] p by simp
  moreover have "logged_evidence (log_out ?e') = logged_evidence (log_out e) @ [(n, ?ev)]"
    using le by simp
  ultimately show ?thesis
    using MonitorNode_event_bands[of "randomValue RAND_MAX r"] randomValue_range[OF assms(4,5)]
    by blast
qed

text \<open>
  The first round of the watchdog of node 0 with \<open>rand()\<close> returning 0: the value
  drawn is 0 and the event is positive.
\<close>

theorem C4_evidence_bands_witness:
  "m_node (WatchdogNode_Setup 0 (1 / 2) WatchdogNode_ctor) = Some 0 \<and>
   \<not> terminal (WatchdogNode_Setup 0 (1 / 2) WatchdogNode_ctor)
       (Env_init\<lparr>nodesStatus := [False, False]\<rparr>) \<and>
   0 < length (nodesStatus (Env_init\<lparr>nodesStatus := [False, False]\<rparr>)) \<and>
   (0::nat) < 2147483647 \<and> (0::nat) \<le> 2147483647 \<and>
   (\<exists>w' e'. WatchdogNode_MonitorNode 2147483647 0 0 2
       (WatchdogNode_Setup 0 (1 / 2) WatchdogNode_ctor, Env_init\<lparr>nodesStatus := [False, False]\<rparr>)
         = Inr (w', e') \<and>
       logged_evidence (log_out e') = [(0, POSITIVE_STATUS)])"
proof -
  let ?w = "WatchdogNode_Setup 0 (1 / 2) WatchdogNode_ctor"
  let ?e = "Env_init\<lparr>nodesStatus := [False, False]\<rparr>"
  have n: "m_node ?w = Some 0" and t: "\<not> terminal ?w ?e"
    and l: "0 < length (nodesStatus ?e)"
    by (simp_all add: watchdog_defs monitor_defs)
  have rv: "randomValue 2147483647 0 = 0" by (simp add: randomValue_def)
  from C4_evidence_bands[OF n t l, of 2147483647 0 0 2] obtain w' e' ev where
    "WatchdogNode_MonitorNode 2147483647 0 0 2 (?w, ?e) = Inr (w', e')"
    "logged_evidence (log_out e') = logged_evidence (log_out ?e) @ [(0, ev)]"
    "ev = POSITIVE_STATUS \<longleftrightarrow> randomValue 2147483647 0 < 33 / 100"
    by auto
  then have "WatchdogNode_MonitorNode 2147483647 0 0 2 (?w, ?e) = Inr (w', e') \<and>
       logged_evidence (log_out e') = [(0, POSITIVE_STATUS)]"
    by (simp add: rv Env_init_def)
  with n t l show ?thesis by auto
qed

text \<open>
  With \<open>RAND_MAX = 2147483647\<close> and \<open>rand()\<close> returning 712000000 the value drawn
  is about 0.3316: below one third, where the claim has a positive event, and not below
  0.33, so that the round processes a negative event.
\<close>

theorem C4_evidence_bands_counterexample:
  "randomValue 2147483647 712000000 < 1 / 3 \<and>
   spec_evidence (randomValue 2147483647 712000000) = POSITIVE_STATUS \<and>
   WatchdogNode_MonitorNode 2147483647 0 712000000 2
      (WatchdogNode_Setup 0 (1 / 2) WatchdogNode_ctor, Env_init\<lparr>nodesStatus := [False, False]\<rparr>)
   = Inr (WatchdogNode_Setup 0 (1 / 2) WatchdogNode_ctor
            \<lparr>m_reputation := - 1, m_event := Some 0, m_monitorCount := 1\<rparr>,
          Env_init\<lparr>nodesStatus := [True, False], sim_uid := 1, sim_events := [(0, 3, 0)],
             log_out := [Log_Monitoring 0, Log_Negative_Event 0 (- 1), Log_State 0 NO_STATUS]\<rparr>)"
  by (simp add: spec_evidence_def monitor_defs watchdog_defs)

text \<open>
  C2, as the code has it. When the handler fires with the round count at least
  \<open>m_maxMonitorCount\<close>, or with \<open>allNodesConverged\<close> set, it stores and logs
  \<open>1.0 - (double)m_receivedPackets / m_sentPackets\<close>, changes nothing else and
  schedules nothing. The division is not guarded: with \<open>m_sentPackets = 0\<close> the value
  stored and logged is NaN when \<open>m_receivedPackets\<close> is 0 too, and minus infinity
  otherwise.
\<close>

theorem C2_terminal_loss_rate:
  assumes "m_node w = Some n"
    and "m_monitorCount w \<ge> m_maxMonitorCount \<or> allNodesConverged e"
  shows "\<exists>rate. WatchdogNode_MonitorNode RAND_MAX this r now (w, e) =
             Inr (w\<lparr>m_packetLossRate := rate\<rparr>,
                  e\<lparr>log_out := log_out e @
                      [Log_Max_Or_Converged n, Log_Packet_Loss_Rate n rate]\<rparr>) \<and>
           rate = (if m_sentPackets w = 0
                   then (if m_receivedPackets w = 0 then NaN else NegInf)
                   else Finite (1 - real (unat (m_receivedPackets w)) /
                                    real (unat (m_sentPackets w))))"
proof -
  have t: "terminal w e" using assms(2) by (simp add: terminal_def)
  show ?thesis
    using MonitorNode_terminal[OF assms(1) t, of RAND_MAX this r now]
    by (simp add: u32_div_def)
qed

text \<open>
  The handler of a fresh watchdog firing after convergence: the rate stored is NaN.
\<close>

theorem C2_terminal_loss_rate_witness:
  "m_node (WatchdogNode_Setup 0 (1 / 2) WatchdogNode_ctor) = Some 0 \<and>
   allNodesConverged (Env_init\<lparr>allNodesConverged := True\<rparr>) \<and>
   (\<exists>rate. WatchdogNode_MonitorNode 2147483647 0 5 7
              (WatchdogNode_Setup 0 (1 / 2) WatchdogNode_ctor, Env_init\<lparr>allNodesConverged := True\<rparr>) =
             Inr (WatchdogNode_Setup 0 (1 / 2) WatchdogNode_ctor\<lparr>m_packetLossRate := rate\<rparr>,
                  Env_init\<lparr>allNodesConverged := True,
                     log_out := [Log_Max_Or_Converged 0, Log_Packet_Loss_Rate 0 rate]\<rparr>) \<and>
           rate = NaN)"
proof -
  let ?w = "WatchdogNode_Setup 0 (1 / 2) WatchdogNode_ctor"
  let ?e = "Env_init\<lparr>allNodesConverged := True\<rparr>"
  have n: "m_node ?w = Some 0" by (simp add: watchdog_defs)
  have c: "m_monitorCount ?w \<ge> m_maxMonitorCount \<or> allNodesConverged ?e"
    by (simp add: watchdog_defs)
  from C2_terminal_loss_rate[OF n c, of 2147483647 0 5 7] n show ?thesis
    by (simp add: watchdog_defs)
qed

text \<open>
  A watchdog that has run its ten rounds, nothing sent and nothing received: where the
  guarded loss rate of the specification is undefined, the handler stores NaN in
  \<open>m_packetLossRate\<close> and logs it as the packet loss rate.
\<close>

theorem C2_terminal_loss_rate_counterexample:
  "spec_lossRate 0 0 = None \<and>
   WatchdogNode_MonitorNode 2147483647 0 0 12
     (WatchdogNode_Setup 0 (1 / 2) WatchdogNode_ctor\<lparr>m_monitorCount := 10\<rparr>,
      Env_init\<lparr>nodesStatus := [False, False]\<rparr>)
   = Inr (WatchdogNode_Setup 0 (1 / 2) WatchdogNode_ctor
            \<lparr>m_monitorCount := 10, m_packetLossRate := NaN\<rparr>,
          Env_init\<lparr>nodesStatus := [False, False],
            log_out := [Log_Max_Or_Converged 0, Log_Packet_Loss_Rate 0 NaN]\<rparr>)"
  by (simp add: spec_lossRate_def monitor_defs watchdog_defs)

text \<open>
  C8, as the code has it. For every packet received by a greyhole that was set up, the
  node draws \<open>rand() / RAND_MAX\<close>, a value between 0 and 1 with both ends possible,
  and sends the packet back exactly when the value is greater than
  \<open>m_dropProbability\<close>; otherwise it logs the drop and sends nothing. With drop
  probability 1 no packet is forwarded. With drop probability 0 a packet is forwarded
  exactly when \<open>rand()\<close> did not return 0.
\<close>

theorem C8_forward_iff:
  assumes "gh_m_node g = Some n" and "0 < RAND_MAX" and "r \<le> RAND_MAX"
  shows "GreyholeNode_ReceivePacket RAND_MAX r (Some p) g =
           (if randomValue RAND_MAX r > m_dropProbability g then Inr ([p], [])
            else Inr ([], [Log_Packet_Dropped n])) \<and>
         0 \<le> randomValue RAND_MAX r \<and> randomValue RAND_MAX r \<le> 1 \<and>
         (m_dropProbability g = 1 \<longrightarrow>
            GreyholeNode_ReceivePacket RAND_MAX r (Some p) g = Inr ([], [Log_Packet_Dropped n])) \<and>
         (m_dropProbability g = 0 \<longrightarrow>
            (GreyholeNode_ReceivePacket RAND_MAX r (Some p) g = Inr ([p], []) \<longleftrightarrow> r \<noteq> 0))"
proof -
  have rng: "0 \<le> randomValue RAND_MAX r \<and> randomValue RAND_MAX r \<le> 1"
    using randomValue_range[OF assms(2,3)] .
  have pos: "0 < randomValue RAND_MAX r \<longleftrightarrow> r \<noteq> 0"
    using assms(2) by (simp add: randomValue_def zero_less_divide_iff)
  show ?thesis
    using assms(1) rng pos by (auto simp: GreyholeNode_ReceivePacket_def)
qed

text \<open>
  The greyhole of \<open>main\<close> (node 25, drop probability 0.05) with \<open>rand()\<close> returning
  about half of \<open>RAND_MAX\<close>: the packet is sent back.
\<close>

theorem C8_forward_iff_witness:
  "gh_m_node (GreyholeNode_Setup 25 (5 / 100) GreyholeNode_ctor) = Some 25 \<and>
   (0::nat) < 2147483647 \<and> (1073741823::nat) \<le> 2147483647 \<and>
   GreyholeNode_ReceivePacket 2147483647 1073741823 (Some (1::nat))
      (GreyholeNode_Setup 25 (5 / 100) GreyholeNode_ctor) = Inr ([1], [])"
proof -
  let ?g = "GreyholeNode_Setup 25 (5 / 100) GreyholeNode_ctor"
  have n: "gh_m_node ?g = Some 25" by (simp add: GreyholeNode_Setup_def)
  from C8_forward_iff[OF n, of 2147483647 1073741823 "1::nat"] n show ?thesis
    by (simp add: greyhole_defs)
qed

text \<open>
  A greyhole set up with drop probability 0 receives a packet and \<open>rand()\<close> returns
  0: the packet is dropped.
\<close>

theorem C8_forward_iff_counterexample:
  "m_dropProbability (GreyholeNode_Setup 25 0 GreyholeNode_ctor) = 0 \<and>
   GreyholeNode_ReceivePacket 2147483647 0 (Some (1::nat))
      (GreyholeNode_Setup 25 0 GreyholeNode_ctor)
     = Inr ([], [Log_Packet_Dropped 25])"
  by (simp add: greyhole_defs)

text \<open>
  C9, as the code has it. Neither Setup checks anything or can fail. Where the
  specification's setup accepts its arguments, the code's does what the
  specification's does; where the specification's rejects them, the code's goes ahead
  all the same: \<open>GreyholeNode::Setup\<close> stores the node and whatever drop probability
  it is given, and \<open>WatchdogNode::Setup\<close> called on an instance that was set up
  before overwrites its node and gamma and leaves the other fields as they are.
\<close>

theorem C9_setup_unchecked:
  "(spec_GreyholeNode_Setup node p g = Inr g' \<longrightarrow> GreyholeNode_Setup node p g = g') \<and>
   m_dropProbability (GreyholeNode_Setup node p g) = p \<and>
   gh_m_node (GreyholeNode_Setup node p g) = Some node \<and>
   gh_m_socket (GreyholeNode_Setup node p g) = gh_m_socket g \<and>
   (spec_WatchdogNode_Setup node2 gamma2 w = Inr w' \<longrightarrow> WatchdogNode_Setup node2 gamma2 w = w') \<and>
   WatchdogNode_Setup node2 gamma2 (WatchdogNode_Setup node1 gamma1 w) =
     w\<lparr>m_node := Some node2, m_gamma := gamma2\<rparr>"
  by (auto simp: GreyholeNode_Setup_def WatchdogNode_Setup_def spec_GreyholeNode_Setup_def
      spec_WatchdogNode_Setup_def split: if_splits)

text \<open>
  The two setups of \<open>main\<close> (lines 305 and 316), which the specification's setup
  accepts, and a watchdog set up twice.
\<close>

theorem C9_setup_unchecked_witness:
  "spec_GreyholeNode_Setup 25 (5 / 100) GreyholeNode_ctor
     = Inr (GreyholeNode_Setup 25 (5 / 100) GreyholeNode_ctor) \<and>
   GreyholeNode_Setup 25 (5 / 100) GreyholeNode_ctor
     = \<lparr>gh_m_socket = False, gh_m_node = Some 25, m_dropProbability = 5 / 100\<rparr> \<and>
   spec_WatchdogNode_Setup 3 (1 / 2) WatchdogNode_ctor
     = Inr (WatchdogNode_Setup 3 (1 / 2) WatchdogNode_ctor) \<and>
   WatchdogNode_Setup 7 (1 / 4) (WatchdogNode_Setup 3 (1 / 2) WatchdogNode_ctor)
     = WatchdogNode_ctor\<lparr>m_node := Some 7, m_gamma := 1 / 4\<rparr>"
proof -
  have a: "spec_GreyholeNode_Setup 25 (5 / 100) GreyholeNode_ctor
     = Inr (GreyholeNode_ctor\<lparr>gh_m_node := Some 25, m_dropProbability := 5 / 100\<rparr>)"
    by (simp add: spec_GreyholeNode_Setup_def)
  have b: "spec_WatchdogNode_Setup 3 (1 / 2) WatchdogNode_ctor
     = Inr (WatchdogNode_ctor\<lparr>m_node := Some 3, m_gamma := 1 / 2\<rparr>)"
    by (simp add: spec_WatchdogNode_Setup_def WatchdogNode_ctor_def)
  from C9_setup_unchecked[of 25 "5 / 100" GreyholeNode_ctor
      "GreyholeNode_ctor\<lparr>gh_m_node := Some 25, m_dropProbability := 5 / 100\<rparr>"
      3 "1 / 2" WatchdogNode_ctor "WatchdogNode_ctor\<lparr>m_node := Some 3, m_gamma := 1 / 2\<rparr>"]
    C9_setup_unchecked[of 25 "5 / 100" GreyholeNode_ctor _ 7 "1 / 4" WatchdogNode_ctor _ 3 "1 / 2"]
    a b
  show ?thesis by (simp add: GreyholeNode_ctor_def)
qed

text \<open>
  A drop probability of 1.5, which the specification's setup rejects, is stored; a
  second Setup of a watchdog, which the specification's setup rejects as
  AlreadyAttached, moves the watchdog from node 3 to node 7.
\<close>

theorem C9_setup_unchecked_counterexample:
  "spec_GreyholeNode_Setup 25 (3 / 2) GreyholeNode_ctor = Inl BadDropProbability \<and>
   m_dropProbability (GreyholeNode_Setup 25 (3 / 2) GreyholeNode_ctor) = 3 / 2 \<and>
   spec_WatchdogNode_Setup 7 (1 / 2) (WatchdogNode_Setup 3 (1 / 2) WatchdogNode_ctor)
     = Inl AlreadyAttached \<and>
   m_node (WatchdogNode_Setup 7 (1 / 2) (WatchdogNode_Setup 3 (1 / 2) WatchdogNode_ctor)) = Some 7"
  by (simp add: spec_GreyholeNode_Setup_def spec_WatchdogNode_Setup_def GreyholeNode_Setup_def
      WatchdogNode_Setup_def GreyholeNode_ctor_def WatchdogNode_ctor_def)

text \<open>
  C5. \<open>ProcessEvent\<close> adds 1.0 to the reputation for a positive event, subtracts 1.0
  for a negative one and leaves it alone for NO_STATUS, so that after any sequence of
  events, processed by a watchdog whose node has an entry in \<open>nodesStatus\<close>, every
  call returns and the reputation is the initial one plus the signed sum of the
  contributions. A positive or a negative event sets the node's entry of
  \<open>nodesStatus\<close>; a sequence of NO_STATUS events leaves \<open>nodesStatus\<close> as it was.
  (The sums the program can reach, at most ten steps of 1.0 away from 0, are exact in
  doubles.)
\<close>

theorem C5_reputation_signed_sum:
  assumes "m_node w = Some n" and "n < length (nodesStatus e)"
  shows "\<exists>w' e'. apply_evidence now evs (w, e) = Inr (w', e') \<and>
     m_reputation w' = m_reputation w + sum_list (map signed_contribution evs) \<and>
     nodesStatus e' =
       (if \<exists>ev \<in> set evs. ev \<noteq> NO_STATUS then (nodesStatus e)[n := True] else nodesStatus e)"
  using assms
proof (induction evs arbitrary: w e now)
  case Nil
  then show ?case by simp
next
  case (Cons ev evs)
  from ProcessEvent_ok[OF Cons.prems(1), of ev e now] Cons.prems(2)
  obtain w1 e1 where p: "WatchdogNode_ProcessEvent now ev (w, e) = Inr (w1, e1)" by blast
  note r = ProcessEvent_Inr(1,3)[OF p Cons.prems(1)]
  have n1: "m_node w1 = Some n" using r(1) Cons.prems(1) by simp
  have l1: "n < length (nodesStatus e1)" using r(2) Cons.prems(2) by simp
  from Cons.IH[OF n1 l1, of "now + 1"] obtain w' e' where
    ih: "apply_evidence (now + 1) evs (w1, e1) = Inr (w', e')"
      "m_reputation w' = m_reputation w1 + sum_list (map signed_contribution evs)"
      "nodesStatus e' =
        (if \<exists>ev \<in> set evs. ev \<noteq> NO_STATUS then (nodesStatus e1)[n := True] else nodesStatus e1)"
    by blast
  have "apply_evidence now (ev # evs) (w, e) = Inr (w', e')" using p ih(1) by simp
  moreover have "m_reputation w' = m_reputation w + sum_list (map signed_contribution (ev # evs))"
    using ih(2) r(1) by simp
  moreover have "nodesStatus e' =
       (if \<exists>x \<in> set (ev # evs). x \<noteq> NO_STATUS then (nodesStatus e)[n := True] else nodesStatus e)"
    using ih(3) r(2) by auto
  ultimately show ?case by blast
qed

text \<open>
  The sequence positive, positive, negative, NO_STATUS from reputation 0 gives
  reputation 1, and the node is marked.
\<close>

theorem C5_reputation_signed_sum_witness:
  "m_node (WatchdogNode_Setup 0 (1 / 2) WatchdogNode_ctor) = Some 0 \<and>
   0 < length (nodesStatus (Env_init\<lparr>nodesStatus := [False, False]\<rparr>)) \<and>
   (\<exists>w' e'. apply_evidence 2 [POSITIVE_STATUS, POSITIVE_STATUS, NEGATIVE_STATUS, NO_STATUS]
        (WatchdogNode_Setup 0 (1 / 2) WatchdogNode_ctor, Env_init\<lparr>nodesStatus := [False, False]\<rparr>)
       = Inr (w', e') \<and>
      m_reputation w' = 1 \<and> nodesStatus e' = [True, False])"
proof -
  let ?w = "WatchdogNode_Setup 0 (1 / 2) WatchdogNode_ctor"
  let ?e = "Env_init\<lparr>nodesStatus := [False, False]\<rparr>"
  have n: "m_node ?w = Some 0" and l: "0 < length (nodesStatus ?e)"
    and r0: "m_reputation ?w = 0" and s0: "nodesStatus ?e = [False, False]"
    by (simp_all add: watchdog_defs)
  from C5_reputation_signed_sum[OF n l,
      of 2 "[POSITIVE_STATUS, POSITIVE_STATUS, NEGATIVE_STATUS, NO_STATUS]"]
  obtain w' e' where
    "apply_evidence 2 [POSITIVE_STATUS, POSITIVE_STATUS, NEGATIVE_STATUS, NO_STATUS] (?w, ?e)
       = Inr (w', e')"
    "m_reputation w' = m_reputation ?w +
       sum_list (map signed_contribution [POSITIVE_STATUS, POSITIVE_STATUS, NEGATIVE_STATUS, NO_STATUS])"
    "nodesStatus e' =
       (if \<exists>ev \<in> set [POSITIVE_STATUS, POSITIVE_STATUS, NEGATIVE_STATUS, NO_STATUS]. ev \<noteq> NO_STATUS
        then (nodesStatus ?e)[0 := True] else nodesStatus ?e)"
    by blast
  then have "apply_evidence 2 [POSITIVE_STATUS, POSITIVE_STATUS, NEGATIVE_STATUS, NO_STATUS] (?w, ?e)
       = Inr (w', e') \<and> m_reputation w' = 1 \<and> nodesStatus e' = [True, False]"
    by (simp add: r0 s0)
  with n l show ?thesis by auto
qed

text \<open>
  C3, as the code has it. However the pending events fire and whatever \<open>rand()\<close>
  returns, a simulation set up as \<open>main\<close> does never faults and no watchdog runs more
  than ten monitoring rounds: the rounds logged for node \<open>i\<close> are as many as
  \<open>m_monitorCount\<close> of watchdog \<open>i\<close> counts, at most \<open>m_maxMonitorCount\<close>.
  The handler decides at its start only: a firing that finds the count at ten (or the
  converged flag set) is terminal, runs no round and schedules nothing, while every
  firing that runs a round, the tenth included, ends by scheduling the handler again one
  second later. So after the tenth round one more timer is pending, and the firing
  of that timer is the terminal one.
\<close>

theorem C3_at_most_ten_rounds:
  assumes "k \<le> n" and "m_node w = Some j" and "j < length (nodesStatus e0)"
  shows "(\<exists>ws e. run_main RAND_MAX n k acts = Inr (ws, e) \<and> length ws = k \<and>
            (\<forall>i < k. count_list (logged_rounds (log_out e)) i \<le> 10 \<and>
                     count_list (logged_rounds (log_out e)) i = unat (m_monitorCount (ws ! i)))) \<and>
         (m_maxMonitorCount \<le> m_monitorCount w \<longrightarrow> terminal w e0) \<and>
         (\<exists>w' e'. WatchdogNode_MonitorNode RAND_MAX this r now (w, e0) = Inr (w', e') \<and>
            (if terminal w e0
             then sim_events e' = sim_events e0 \<and> m_monitorCount w' = m_monitorCount w \<and>
                  logged_rounds (log_out e') = logged_rounds (log_out e0)
             else sim_events e' = sim_events e0 @ [(sim_uid e0, now + 1, this)] \<and>
                  m_monitorCount w' = m_monitorCount w + 1 \<and>
                  logged_rounds (log_out e') = logged_rounds (log_out e0) @ [j]))"
proof -
  have "\<exists>ws e. run_main RAND_MAX n k acts = Inr (ws, e) \<and> world_ok (ws, e) \<and> length ws = k \<and>
          rounds_inv (ws, e)"
  proof (rule run_main_invariant[OF assms(1)])
    fix ws :: "WatchdogNode list" and e :: Env
    assume "length ws = k" "\<forall>i < k. m_monitorCount (ws ! i) = 0" "logged_rounds (log_out e) = []"
    then show "rounds_inv (ws, e)" by (simp add: rounds_inv_def m_maxMonitorCount_def)
  next
    fix W :: World and a W'
    assume "world_ok W" "rounds_inv W" "world_step RAND_MAX a W = Inr W'"
    then show "rounds_inv W'" by (rule rounds_inv_step)
  qed
  then obtain ws e where r: "run_main RAND_MAX n k acts = Inr (ws, e)" "length ws = k"
    "rounds_inv (ws, e)" by blast
  have "\<forall>i < k. count_list (logged_rounds (log_out e)) i \<le> 10 \<and>
                     count_list (logged_rounds (log_out e)) i = unat (m_monitorCount (ws ! i))"
    using r(2,3) by (auto simp: rounds_inv_def m_maxMonitorCount_def word_le_nat_alt)
  with r(1,2) have A: "\<exists>ws e. run_main RAND_MAX n k acts = Inr (ws, e) \<and> length ws = k \<and>
            (\<forall>i < k. count_list (logged_rounds (log_out e)) i \<le> 10 \<and>
                     count_list (logged_rounds (log_out e)) i = unat (m_monitorCount (ws ! i)))"
    by blast
  have B: "m_maxMonitorCount \<le> m_monitorCount w \<longrightarrow> terminal w e0" by (simp add: terminal_def)
  from MonitorNode_effect[OF assms(2,3), of RAND_MAX this r now]
  have C: "\<exists>w' e'. WatchdogNode_MonitorNode RAND_MAX this r now (w, e0) = Inr (w', e') \<and>
            (if terminal w e0
             then sim_events e' = sim_events e0 \<and> m_monitorCount w' = m_monitorCount w \<and>
                  logged_rounds (log_out e') = logged_rounds (log_out e0)
             else sim_events e' = sim_events e0 @ [(sim_uid e0, now + 1, this)] \<and>
                  m_monitorCount w' = m_monitorCount w + 1 \<and>
                  logged_rounds (log_out e') = logged_rounds (log_out e0) @ [j])"
    by (cases "terminal w e0") auto
  from A B C show ?thesis by blast
qed

text \<open>
  One watchdog among two nodes; its timer fires eleven times: ten rounds are logged,
  and after the eleventh firing no event is pending.
\<close>

theorem C3_at_most_ten_rounds_witness:
  "(1::nat) \<le> 2 \<and>
   m_node (WatchdogNode_Setup 0 (1 / 2) WatchdogNode_ctor\<lparr>m_monitorCount := 10\<rparr>) = Some 0 \<and>
   0 < length (nodesStatus (Env_init\<lparr>nodesStatus := [False, False]\<rparr>)) \<and>
   (\<exists>ws e. run_main 2147483647 2 1 [Fire 0 2147483647, Fire 1 2147483647, Fire 2 2147483647, Fire 3 2147483647, Fire 4 2147483647, Fire 5 2147483647, Fire 6 2147483647, Fire 7 2147483647, Fire 8 2147483647, Fire 9 2147483647, Fire 10 2147483647] = Inr (ws, e) \<and>
      count_list (logged_rounds (log_out e)) 0 = 10 \<and> sim_events e = []) \<and>
   (\<exists>w' e'. WatchdogNode_MonitorNode 2147483647 0 0 12
        (WatchdogNode_Setup 0 (1 / 2) WatchdogNode_ctor\<lparr>m_monitorCount := 10\<rparr>,
         Env_init\<lparr>nodesStatus := [False, False]\<rparr>) = Inr (w', e') \<and>
      sim_events e' = [])"
proof -
  let ?w = "WatchdogNode_Setup 0 (1 / 2) WatchdogNode_ctor\<lparr>m_monitorCount := 10\<rparr>"
  let ?e = "Env_init\<lparr>nodesStatus := [False, False]\<rparr>"
  let ?acts = "[Fire 0 2147483647, Fire 1 2147483647, Fire 2 2147483647, Fire 3 2147483647, Fire 4 2147483647, Fire 5 2147483647, Fire 6 2147483647, Fire 7 2147483647, Fire 8 2147483647, Fire 9 2147483647, Fire 10 2147483647]"
  have k: "(1::nat) \<le> 2" by simp
  have n: "m_node ?w = Some 0" and l: "0 < length (nodesStatus ?e)"
    and t: "terminal ?w ?e" and s: "sim_events ?e = []"
    by (simp_all add: watchdog_defs monitor_defs)
  have ev: "(case run_main 2147483647 2 1 ?acts of Inl f \<Rightarrow> False
     | Inr (ws, e) \<Rightarrow> map m_monitorCount ws = [10] \<and> sim_events e = [])"
    by (simp add: world_defs watchdog_defs monitor_defs)
  from C3_at_most_ten_rounds[OF k n l, of 2147483647 ?acts 0 0 12] obtain ws e w' e' where
    r: "run_main 2147483647 2 1 ?acts = Inr (ws, e)" "length ws = 1"
      "\<forall>i < 1. count_list (logged_rounds (log_out e)) i \<le> 10 \<and>
               count_list (logged_rounds (log_out e)) i = unat (m_monitorCount (ws ! i))"
    and m: "WatchdogNode_MonitorNode 2147483647 0 0 12 (?w, ?e) = Inr (w', e')"
      "if terminal ?w ?e
       then sim_events e' = sim_events ?e \<and> m_monitorCount w' = m_monitorCount ?w \<and>
            logged_rounds (log_out e') = logged_rounds (log_out ?e)
       else sim_events e' = sim_events ?e @ [(sim_uid ?e, 12 + 1, 0)] \<and>
            m_monitorCount w' = m_monitorCount ?w + 1 \<and>
            logged_rounds (log_out e') = logged_rounds (log_out ?e) @ [0]"
    by blast
  from ev r(1) have c: "map m_monitorCount ws = [10]" "sim_events e = []" by simp_all
  from c(1) r(2) have "m_monitorCount (ws ! 0) = 10" by (cases ws) auto
  with r(3) have "count_list (logged_rounds (log_out e)) 0 = 10" by simp
  moreover from m(2) t s have "sim_events e' = []" by simp
  ultimately show ?thesis using k n l r(1) c(2) m(1) by blast
qed

text \<open>
  The same watchdog after ten firings: its tenth round is complete, the count is ten,
  and the event with uid 10, due at time 12, is pending for it.
\<close>

theorem C3_at_most_ten_rounds_counterexample:
  "(case run_main 2147483647 2 1 [Fire 0 2147483647, Fire 1 2147483647, Fire 2 2147483647, Fire 3 2147483647, Fire 4 2147483647, Fire 5 2147483647, Fire 6 2147483647, Fire 7 2147483647, Fire 8 2147483647, Fire 9 2147483647]
    of Inl f \<Rightarrow> False
     | Inr (ws, e) \<Rightarrow> count_list (logged_rounds (log_out e)) 0 = 10 \<and>
         map m_monitorCount ws = [10] \<and> \<not> allNodesConverged e \<and> sim_events e = [(10, 12, 0)])"
  by (simp add: world_defs watchdog_defs monitor_defs)

text \<open>
  C1, evaluated on what \<open>main\<close> sets up. \<open>nodesStatus\<close> has one entry per node,
  and the check of lines 229 to 237 reads all of them, while only the first \<open>k\<close> nodes carry a
  watchdog that can set its entry. When \<open>k < n\<close>, as in \<open>main\<close> (24 watchdogs, 27
  nodes), no run ever sets \<open>allNodesConverged\<close>: the flag stays false,
  \<open>convergenceTime\<close> stays 0.0 and the convergence message is never logged, also once
  every watchdog node is marked.
\<close>

theorem C1_main_never_converges:
  assumes "k < n"
  shows "\<exists>ws e. run_main RAND_MAX n k acts = Inr (ws, e) \<and> length ws = k \<and>
           \<not> allNodesConverged e \<and> convergenceTime e = 0 \<and> logged_convergence (log_out e) = []"
proof -
  have kn: "k \<le> n" using assms by simp
  have "\<exists>ws e. run_main RAND_MAX n k acts = Inr (ws, e) \<and> world_ok (ws, e) \<and> length ws = k \<and>
          unconverged_inv (ws, e)"
  proof (rule run_main_invariant[OF kn])
    fix ws :: "WatchdogNode list" and e :: Env
    assume "length ws = k" "nodesStatus e = replicate n False" "\<not> allNodesConverged e"
      "convergenceTime e = 0" "logged_convergence (log_out e) = []"
    then show "unconverged_inv (ws, e)" using assms by (auto simp: unconverged_inv_def)
  next
    fix W :: World and a W'
    assume "world_ok W" "unconverged_inv W" "world_step RAND_MAX a W = Inr W'"
    then show "unconverged_inv W'" by (rule unconverged_inv_step)
  qed
  then show ?thesis by (auto simp: unconverged_inv_def)
qed

text \<open>
  \<open>main\<close> itself, every one of the 24 watchdogs drawing a positive event in its first
  round at time 2: all 24 watchdog nodes are marked, the entries of nodes 24, 25 and 26
  are false, and nothing has converged.
\<close>

theorem C1_main_never_converges_witness:
  "(24::nat) < 27 \<and>
   (\<exists>ws e. run_main 2147483647 27 24 [Fire 0 0, Fire 1 0, Fire 2 0, Fire 3 0, Fire 4 0, Fire 5 0, Fire 6 0, Fire 7 0, Fire 8 0, Fire 9 0, Fire 10 0, Fire 11 0, Fire 12 0, Fire 13 0, Fire 14 0, Fire 15 0, Fire 16 0, Fire 17 0, Fire 18 0, Fire 19 0, Fire 20 0, Fire 21 0, Fire 22 0, Fire 23 0] = Inr (ws, e) \<and>
      nodesStatus e = replicate 24 True @ replicate 3 False \<and>
      \<not> allNodesConverged e \<and> convergenceTime e = 0 \<and> logged_convergence (log_out e) = [])"
proof -
  have "(24::nat) < 27" by simp
  from C1_main_never_converges[OF this, of 2147483647 "[Fire 0 0, Fire 1 0, Fire 2 0, Fire 3 0, Fire 4 0, Fire 5 0, Fire 6 0, Fire 7 0, Fire 8 0, Fire 9 0, Fire 10 0, Fire 11 0, Fire 12 0, Fire 13 0, Fire 14 0, Fire 15 0, Fire 16 0, Fire 17 0, Fire 18 0, Fire 19 0, Fire 20 0, Fire 21 0, Fire 22 0, Fire 23 0]"]
  obtain ws e where
    "run_main 2147483647 27 24 [Fire 0 0, Fire 1 0, Fire 2 0, Fire 3 0, Fire 4 0, Fire 5 0, Fire 6 0, Fire 7 0, Fire 8 0, Fire 9 0, Fire 10 0, Fire 11 0, Fire 12 0, Fire 13 0, Fire 14 0, Fire 15 0, Fire 16 0, Fire 17 0, Fire 18 0, Fire 19 0, Fire 20 0, Fire 21 0, Fire 22 0, Fire 23 0] = Inr (ws, e)"
    "\<not> allNodesConverged e" "convergenceTime e = 0" "logged_convergence (log_out e) = []"
    by blast
  with main_first_rounds show ?thesis by auto
qed

text \<open>
  C7. In every run of a simulation set up as \<open>main\<close> does, at every point: once
  \<open>allNodesConverged\<close> is set it stays set in every continuation of the run and
  \<open>convergenceTime\<close> keeps its value; and the log holds the convergence message
  exactly once, with the time \<open>convergenceTime\<close> holds, if the flag is set, and not at
  all otherwise. So the transition and the recording of its time happen at most once,
  whichever watchdogs find all entries set.
\<close>

theorem C7_converged_once:
  assumes "k \<le> n"
  shows "\<exists>ws e ws' e'. run_main RAND_MAX n k acts = Inr (ws, e) \<and>
      run_main RAND_MAX n k (acts @ rest) = Inr (ws', e') \<and>
      (allNodesConverged e \<longrightarrow> allNodesConverged e' \<and> convergenceTime e' = convergenceTime e) \<and>
      logged_convergence (log_out e') = (if allNodesConverged e' then [convergenceTime e'] else [])"
proof -
  have "\<exists>ws e. run_main RAND_MAX n k acts = Inr (ws, e) \<and> world_ok (ws, e) \<and> length ws = k \<and>
          convergence_inv (ws, e)"
  proof (rule run_main_invariant[OF assms(1)])
    fix ws :: "WatchdogNode list" and e :: Env
    assume "\<not> allNodesConverged e" "logged_convergence (log_out e) = []"
    then show "convergence_inv (ws, e)" by (simp add: convergence_inv_def)
  next
    fix W :: World and a W'
    assume "world_ok W" "convergence_inv W" "world_step RAND_MAX a W = Inr W'"
    then show "convergence_inv W'" by (rule convergence_inv_step)
  qed
  then obtain ws e where r: "run_main RAND_MAX n k acts = Inr (ws, e)" "world_ok (ws, e)"
    "convergence_inv (ws, e)" by blast
  let ?P = "\<lambda>W'. convergence_inv W' \<and>
     (allNodesConverged e \<longrightarrow> allNodesConverged (snd W') \<and> convergenceTime (snd W') = convergenceTime e)"
  have "\<exists>W'. world_run RAND_MAX rest (ws, e) = Inr W' \<and> world_ok W' \<and> ?P W'"
  proof (rule world_run_invariant[where P = ?P and W = "(ws, e)", OF r(2)])
    show "?P (ws, e)" using r(3) by simp
  next
    fix W :: World and a W'
    assume a: "world_ok W" "?P W" "world_step RAND_MAX a W = Inr W'"
    have "convergence_inv W'" using convergence_inv_step[OF a(1) _ a(3)] a(2) by blast
    moreover have "allNodesConverged e \<longrightarrow>
       allNodesConverged (snd W') \<and> convergenceTime (snd W') = convergenceTime e"
      using converged_stays_step[OF a(1,3)] a(2) by auto
    ultimately show "?P W'" by blast
  qed
  then obtain ws' e' where m: "world_run RAND_MAX rest (ws, e) = Inr (ws', e')"
    "convergence_inv (ws', e')"
    "allNodesConverged e \<longrightarrow> allNodesConverged e' \<and> convergenceTime e' = convergenceTime e"
    by auto
  have "run_main RAND_MAX n k (acts @ rest) = Inr (ws', e')"
    using r(1) m(1) by (auto simp: run_main_def world_run_append split: sum.splits)
  with r(1) m(2,3) show ?thesis by (auto simp: convergence_inv_def)
qed

text \<open>
  Two nodes, both with a watchdog. Both draw a positive event at time 2, and the second
  of them sets the flag; both timers fire again and both applications stop: the flag
  and the time are as they were, and the log holds one convergence message.
\<close>

theorem C7_converged_once_witness:
  "(2::nat) \<le> 2 \<and>
   (\<exists>ws e ws' e'. run_main 2147483647 2 2 [Fire 0 0, Fire 1 0] = Inr (ws, e) \<and>
      run_main 2147483647 2 2 ([Fire 0 0, Fire 1 0] @ [Fire 2 0, Fire 3 0, Stop 0, Stop 1])
         = Inr (ws', e') \<and>
      allNodesConverged e \<and> convergenceTime e = 2 \<and>
      allNodesConverged e' \<and> convergenceTime e' = 2 \<and>
      logged_convergence (log_out e') = [2])"
proof -
  have k: "(2::nat) \<le> 2" by simp
  have ev: "(case run_main 2147483647 2 2 [Fire 0 0, Fire 1 0] of Inl f \<Rightarrow> False
      | Inr (ws, e) \<Rightarrow> allNodesConverged e \<and> convergenceTime e = 2)"
    by (simp add: world_defs watchdog_defs monitor_defs)
  from C7_converged_once[OF k, of 2147483647 "[Fire 0 0, Fire 1 0]"
      "[Fire 2 0, Fire 3 0, Stop 0, Stop 1]"]
  obtain ws e ws' e' where
    r: "run_main 2147483647 2 2 [Fire 0 0, Fire 1 0] = Inr (ws, e)"
      "run_main 2147483647 2 2 ([Fire 0 0, Fire 1 0] @ [Fire 2 0, Fire 3 0, Stop 0, Stop 1])
         = Inr (ws', e')"
      "allNodesConverged e \<longrightarrow> allNodesConverged e' \<and> convergenceTime e' = convergenceTime e"
      "logged_convergence (log_out e') = (if allNodesConverged e' then [convergenceTime e'] else [])"
    by blast
  from ev r(1) have c: "allNodesConverged e" "convergenceTime e = 2" by simp_all
  with r(3,4) have "allNodesConverged e'" "convergenceTime e' = 2"
    "logged_convergence (log_out e') = [2]" by simp_all
  with r(1,2) c k show ?thesis by blast
qed

text \<open>
  C10. Whatever operations an instance goes through from its construction (Setup,
  StartApplication, StopApplication, MonitorNode and ProcessEvent, in any order and
  whatever the shared state at each call), \<open>m_sentPackets\<close> and
  \<open>m_receivedPackets\<close> remain 0. The divisor of line 171 is therefore 0 whenever the
  terminal branch runs, and the loss rate it stores and logs is NaN.
\<close>

theorem C10_counters_stay_zero:
  assumes "lifetime RAND_MAX this cs WatchdogNode_ctor = Inr w"
  shows "m_sentPackets w = 0 \<and> m_receivedPackets w = 0 \<and>
         one_minus (u32_div (m_receivedPackets w) (m_sentPackets w)) = NaN \<and>
         (m_node w = Some n \<and> terminal w e \<longrightarrow>
            WatchdogNode_MonitorNode RAND_MAX this r now (w, e) =
              Inr (w\<lparr>m_packetLossRate := NaN\<rparr>,
                   e\<lparr>log_out := log_out e @ [Log_Max_Or_Converged n, Log_Packet_Loss_Rate n NaN]\<rparr>))"
proof -
  from lifetime_counters[OF assms]
  have z: "m_sentPackets w = 0" "m_receivedPackets w = 0" by (simp_all add: WatchdogNode_ctor_def)
  then have nan: "one_minus (u32_div (m_receivedPackets w) (m_sentPackets w)) = NaN"
    by (simp add: u32_div_def)
  show ?thesis using z nan MonitorNode_terminal[of w n e RAND_MAX this r now] by auto
qed

text \<open>
  An instance that is set up, started, fired once, processes one more event and is
  stopped.
\<close>

theorem C10_counters_stay_zero_witness:
  "lifetime 2147483647 0
      [(Call_Setup 0 (1 / 2), Env_init\<lparr>nodesStatus := [False, False]\<rparr>),
       (Call_StartApplication 1, Env_init\<lparr>nodesStatus := [False, False]\<rparr>),
       (Call_MonitorNode 0 2, Env_init\<lparr>nodesStatus := [False, False]\<rparr>),
       (Call_ProcessEvent NEGATIVE_STATUS 3, Env_init\<lparr>nodesStatus := [True, False]\<rparr>),
       (Call_StopApplication, Env_init\<lparr>nodesStatus := [True, False]\<rparr>)]
      WatchdogNode_ctor
    = Inr (WatchdogNode_ctor\<lparr>m_node := Some 0, m_reputation := 0, m_event := Some 0,
             m_monitorCount := 1\<rparr>) \<and>
   m_sentPackets (WatchdogNode_ctor\<lparr>m_node := Some 0, m_reputation := 0, m_event := Some 0,
             m_monitorCount := 1\<rparr>) = 0 \<and>
   m_receivedPackets (WatchdogNode_ctor\<lparr>m_node := Some 0, m_reputation := 0, m_event := Some 0,
             m_monitorCount := 1\<rparr>) = 0"
proof -
  have l: "lifetime 2147483647 0
      [(Call_Setup 0 (1 / 2), Env_init\<lparr>nodesStatus := [False, False]\<rparr>),
       (Call_StartApplication 1, Env_init\<lparr>nodesStatus := [False, False]\<rparr>),
       (Call_MonitorNode 0 2, Env_init\<lparr>nodesStatus := [False, False]\<rparr>),
       (Call_ProcessEvent NEGATIVE_STATUS 3, Env_init\<lparr>nodesStatus := [True, False]\<rparr>),
       (Call_StopApplication, Env_init\<lparr>nodesStatus := [True, False]\<rparr>)]
      WatchdogNode_ctor
    = Inr (WatchdogNode_ctor\<lparr>m_node := Some 0, m_reputation := 0, m_event := Some 0,
             m_monitorCount := 1\<rparr>)"
    by (simp add: do_call_def world_defs watchdog_defs monitor_defs)
  from C10_counters_stay_zero[OF l] l show ?thesis by simp
qed

end
